theory Spec2Isabelle
  imports Main "HOL-Library.Word" "HOL-Library.Signed_Division"
begin

section \<open>MaCleaner: the scanning and cleaning core\<close>

text \<open>
  A shallow embedding of the Go packages \<open>scanner\<close> (\<open>ScanDuplicates\<close>,
  \<open>formatBytes\<close>), \<open>cleaner\<close> (\<open>CleanTargets\<close>, \<open>cleanTarget\<close>,
  \<open>calculateActualSize\<close>, \<open>walkCalculateSize\<close>, \<open>deletePath\<close>,
  \<open>deleteSinglePath\<close>, \<open>executeCommand\<close>, \<open>DeleteFiles\<close>,
  \<open>DeleteDuplicates\<close>) and \<open>utils\<close> (\<open>ExpandPath\<close>, \<open>FileHash\<close>,
  \<open>DirSize\<close>, \<open>ShortenPath\<close>, \<open>SudoManager\<close>).

  \<^item> Go's \<open>int64\<close> is a 64-bit word read in two's complement: \<open>+\<close>, \<open>-\<close> and
    \<open>*\<close> wrap as Go's do, comparisons are the signed ones. Go's \<open>int\<close> counters
    (\<open>exp\<close>, \<open>scannedCount\<close>, \<open>hashCount\<close>, slice lengths) count files in memory
    and are natural numbers; the keys of \<open>map[int]bool\<close> are integers.
  \<^item> Go strings are byte strings: \<open>string\<close>.
  \<^item> Names are the source's. Where two structs have a field of one name, or a name is
    taken, a prefix tells them apart: \<open>Size\<close> is the field of \<open>CleanupTarget\<close>,
    \<open>GroupSize\<close> that of \<open>DuplicateGroup\<close>, \<open>info_Size\<close> the method of
    \<open>os.FileInfo\<close>; \<open>SudoRun\<close> is the method \<open>Run\<close> of \<open>SudoManager\<close>.
  \<^item> What the program asks of the operating system and of Go's standard library
    (\<open>os.Stat\<close>, \<open>os.Remove\<close>, \<open>filepath.Glob\<close>, \<open>exec.Command\<close>, ...) is a
    parameter of every function: a record \<open>os\<close> of operations on an arbitrary type
    of worlds \<open>'w\<close>. A theorem stated for every \<open>os\<close> holds whatever the file system
    and the external commands do.
  \<^item> The program runs alone: the world changes only through the calls the program
    makes. \<open>time.Sleep\<close> is therefore no step of the model, and the goroutine
    \<open>keepAlive\<close> that \<open>EnsureSudo\<close> starts is outside it.
\<close>

subsection \<open>Machine integers\<close>

type_synonym int64 = "64 word"

text \<open>
Go's \<open>/\<close> on \<open>int64\<close> truncates towards zero.
\<close>

definition int64_div :: "int64 \<Rightarrow> int64 \<Rightarrow> int64" where
  "int64_div a b = word_of_int (sint a sdiv sint b)"

lemma sint64_range: "- (2 ^ 63) \<le> sint (n :: int64) \<and> sint n < 2 ^ 63"
  using sint_ge [of n] sint_lt [of n] by simp

lemma sint_int64_div_1024:
  assumes "1024 \<le>s n"
  shows "sint (int64_div n 1024) = sint n div 1024"
proof -
  have ge: "1024 \<le> sint n"
    using assms by (simp add: word_sle_eq)
  have lt: "sint n < 2 ^ 63"
    using sint64_range by blast
  have sd: "sint n sdiv 1024 = sint n div 1024"
    using ge by (simp add: signed_divide_int_def sgn_if)
  have "sint (word_of_int (sint n div 1024) :: int64) = sint n div 1024"
    using ge lt by (simp add: sint_sbintrunc' signed_take_bit_int_eq_self)
  then show ?thesis
    by (simp add: int64_div_def sd)
qed

subsection \<open>Run-time panics\<close>

text \<open>
  An index expression \<open>xs[i]\<close> outside \<open>0 \<le> i < len(xs)\<close> panics in Go. The panic is
  the \<open>Inl\<close> branch of a result; it carries the index and the length.
\<close>

datatype panic = IndexOutOfRange int nat

definition index :: "'a list \<Rightarrow> int \<Rightarrow> panic + 'a" where
  "index xs i =
     (if 0 \<le> i \<and> i < int (length xs) then Inr (xs ! nat i)
      else Inl (IndexOutOfRange i (length xs)))"

subsection \<open>scanner.formatBytes\<close>

text \<open>
  \<^verbatim>\<open>for n := b / unit; n >= unit; n /= unit { div *= unit; exp++ }\<close>
  is the function \<open>formatBytes_loop\<close> on the loop state \<open>(n, div, exp)\<close>; every round
  divides a value of at least 1024 by 1024, so the loop ends.
\<close>

function formatBytes_loop :: "int64 \<Rightarrow> int64 \<Rightarrow> nat \<Rightarrow> int64 \<times> nat" where
  "formatBytes_loop n div' exp =
     (if 1024 \<le>s n then formatBytes_loop (int64_div n 1024) (div' * 1024) (exp + 1)
      else (div', exp))"
  by pat_completeness auto
termination
proof (relation "measure (\<lambda>(n, d, e). nat (sint n))")
  show "wf (measure (\<lambda>(n :: int64, d :: int64, e :: nat). nat (sint n)))"
    by simp
next
  fix n div' :: int64 and exp :: nat
  assume "1024 \<le>s n"
  then show "((int64_div n 1024, div' * 1024, exp + 1), n, div', exp)
      \<in> measure (\<lambda>(n, d, e). nat (sint n))"
    by (simp add: sint_int64_div_1024 word_sle_eq)
qed
declare formatBytes_loop.simps [simp del]

text \<open>
  The formatter of package \<open>scanner\<close>: below 1024 the bare label \<open>B\<close>, otherwise the
  entry \<open>units[exp]\<close> of a table of four labels. The loop computes \<open>div\<close> and the
  return statement does not use it.
\<close>

definition units :: "string list" where
  "units = [''KB'', ''MB'', ''GB'', ''TB'']"

definition formatBytes :: "int64 \<Rightarrow> panic + string" where
  "formatBytes b =
     (if b <s 1024 then Inr ''B''
      else (case formatBytes_loop (int64_div b 1024) 1024 0 of
              (div', exp) \<Rightarrow> index units (int exp)))"

subsection \<open>Errors, file information, directory trees\<close>

text \<open>
  Go's \<open>error\<close> values. \<open>ErrWrap m e\<close> is \<open>fmt.Errorf(m + ": %w", e)\<close>, \<open>ErrOutput e out\<close>
  is \<open>fmt.Errorf("%v: %s", e, out)\<close> and \<open>ErrText m\<close> is \<open>fmt.Errorf(m)\<close>.
  \<open>os.IsNotExist\<close> is applied to what \<open>os.Stat\<close> returned.
\<close>

datatype error =
    ErrNotExist
  | ErrPermission
  | ErrBadPattern
  | ErrExit
  | ErrText string
  | ErrWrap string error
  | ErrOutput error string

definition IsNotExist :: "error \<Rightarrow> bool" where
  "IsNotExist e = (e = ErrNotExist)"

text \<open>
  Of \<open>os.FileInfo\<close> the program reads \<open>Name()\<close>, \<open>Size()\<close> and \<open>IsDir()\<close>; the mode says
  which kind of entry it is.
\<close>

datatype FileMode = ModeRegular | ModeDir | ModeSymlink | ModeOther

record FileInfo =
  info_Name :: string
  info_Size :: int64
  info_Mode :: FileMode

definition IsDir :: "FileInfo \<Rightarrow> bool" where
  "IsDir info = (info_Mode info = ModeDir)"

text \<open>
  What \<open>filepath.Walk\<close> meets below a root: \<open>LstatError path err\<close> is an entry whose
  \<open>os.Lstat\<close> failed; \<open>Entry path info err names\<close> is an entry with its \<open>Lstat\<close>
  information and, for a directory, the error of reading it (if any) and its entries in
  lexical order.
\<close>

datatype dirtree =
    LstatError string error
  | Entry string FileInfo "error option" "dirtree list"

subsection \<open>The operating system\<close>

text \<open>
  \<open>exec.Cmd\<close> is run in one of three ways, which differ in what they capture.
\<close>

datatype capture = Run | Output | CombinedOutput

text \<open>
  A Go map is the list of its entries, in insertion order, with one entry for a key. The
  order in which a \<open>range\<close> statement yields the entries is chosen by the Go runtime:
  it is a parameter (\<open>range_sizeMap\<close>, \<open>range_hashMap\<close>), and the map
  \<open>selected\<close> that \<open>DeleteDuplicates\<close> receives is given as the list of its entries in
  the order \<open>range\<close> yields them.
\<close>

type_synonym ('k, 'v) gomap = "('k \<times> 'v) list"

text \<open>
  The operations. \<open>os_Open w path\<close> is \<open>os.Open\<close> followed by one \<open>Read\<close>: the
  bytes of the file, of which \<open>FileHash\<close> takes the first 4096. \<open>filepath_Tree w root\<close> is
  what \<open>filepath.Walk\<close> finds below \<open>root\<close>. \<open>md5_Sum\<close> is \<open>crypto/md5\<close>, with the 16
  bytes of the digest as one 128-bit word.
\<close>

record 'w os =
  os_Stat :: "'w \<Rightarrow> string \<Rightarrow> error + FileInfo"
  os_Open :: "'w \<Rightarrow> string \<Rightarrow> error + 8 word list"
  os_Remove :: "'w \<Rightarrow> string \<Rightarrow> error option \<times> 'w"
  os_RemoveAll :: "'w \<Rightarrow> string \<Rightarrow> error option \<times> 'w"
  os_UserHomeDir :: "'w \<Rightarrow> string"
  os_Getenv :: "'w \<Rightarrow> string \<Rightarrow> string"
  exec_Command :: "'w \<Rightarrow> capture \<Rightarrow> string list \<Rightarrow> (error option \<times> string) \<times> 'w"
  filepath_Glob :: "'w \<Rightarrow> string \<Rightarrow> error + string list"
  filepath_Match :: "string \<Rightarrow> string \<Rightarrow> error + bool"
  filepath_Join :: "string \<Rightarrow> string \<Rightarrow> string"
  filepath_Tree :: "'w \<Rightarrow> string \<Rightarrow> dirtree"
  time_Now :: "'w \<Rightarrow> int"
  md5_Sum :: "8 word list \<Rightarrow> 128 word"
  range_sizeMap :: "(int64, string list) gomap \<Rightarrow> (int64, string list) gomap"
  range_hashMap :: "(string, string list) gomap \<Rightarrow> (string, string list) gomap"

subsection \<open>filepath.Walk\<close>

text \<open>
  The callbacks of this program return \<open>nil\<close> or \<open>filepath.SkipDir\<close>. The two functions
  follow \<open>filepath.walk\<close>: a callback result other than \<open>nil\<close> on a directory skips its
  entries; \<open>SkipDir\<close> from an entry that is no directory skips the rest of the directory
  that holds it; an entry whose \<open>Lstat\<close> failed is reported and the walk goes on.
  The callback's captured variables are the accumulator \<open>acc\<close>.
\<close>

datatype walk_ret = WalkNil | SkipDir

type_synonym 'a WalkFunc = "string \<Rightarrow> FileInfo option \<Rightarrow> error option \<Rightarrow> 'a \<Rightarrow> walk_ret \<times> 'a"

fun walk :: "'a WalkFunc \<Rightarrow> dirtree \<Rightarrow> 'a \<Rightarrow> walk_ret \<times> 'a"
  and walk_names :: "'a WalkFunc \<Rightarrow> dirtree list \<Rightarrow> 'a \<Rightarrow> walk_ret \<times> 'a" where
  "walk fn (LstatError path err) acc = fn path None (Some err) acc"
| "walk fn (Entry path info err names) acc =
     (if \<not> IsDir info then fn path (Some info) None acc
      else (case fn path (Some info) err acc of
              (err1, acc1) \<Rightarrow>
                if err \<noteq> None \<or> err1 \<noteq> WalkNil then (err1, acc1)
                else walk_names fn names acc1))"
| "walk_names fn [] acc = (WalkNil, acc)"
| "walk_names fn (LstatError path err # names) acc =
     (case fn path None (Some err) acc of (r, acc1) \<Rightarrow> walk_names fn names acc1)"
| "walk_names fn (Entry path info err sub # names) acc =
     (case walk fn (Entry path info err sub) acc of
        (r, acc1) \<Rightarrow>
          if r \<noteq> WalkNil \<and> \<not> IsDir info then (r, acc1)
          else walk_names fn names acc1)"

definition Walk :: "'a WalkFunc \<Rightarrow> dirtree \<Rightarrow> 'a \<Rightarrow> 'a" where
  "Walk fn root acc = snd (walk fn root acc)"

subsection \<open>Strings and maps\<close>

text \<open>
  \<open>strings.HasPrefix\<close>, \<open>strings.Contains\<close> for a one-character substring,
  \<open>strings.Split\<close> at a one-character separator (\<open>NUL\<close> is the byte 0), \<open>%d\<close> and \<open>%x\<close> of \<open>fmt.Sprintf\<close>.
\<close>

definition HasPrefix :: "string \<Rightarrow> string \<Rightarrow> bool" where
  "HasPrefix s p = (take (length p) s = p)"

definition Contains :: "string \<Rightarrow> char \<Rightarrow> bool" where
  "Contains s c = (c \<in> set s)"

fun Split :: "string \<Rightarrow> char \<Rightarrow> string list" where
  "Split [] sep = [[]]"
| "Split (c # cs) sep =
     (if c = sep then [] # Split cs sep
      else (case Split cs sep of
              [] \<Rightarrow> [[c]]
            | piece # pieces \<Rightarrow> (c # piece) # pieces))"

definition NUL :: char where
  "NUL = CHR 0x00"

definition digit_char :: "nat \<Rightarrow> char" where
  "digit_char d = ''0123456789abcdef'' ! d"

function show_nat :: "nat \<Rightarrow> string" where
  "show_nat n = (if n < 10 then [digit_char n] else show_nat (n div 10) @ [digit_char (n mod 10)])"
  by pat_completeness auto
termination
  by (relation "measure id") auto
declare show_nat.simps [simp del]

definition hex_byte :: "8 word \<Rightarrow> string" where
  "hex_byte b = [digit_char (unat b div 16), digit_char (unat b mod 16)]"

definition hex_digest :: "128 word \<Rightarrow> string" where
  "hex_digest d = concat (map (\<lambda>i. hex_byte (ucast (drop_bit (8 * (15 - i)) d))) [0..<16])"

text \<open>
  \<open>m[k]\<close> of a map of slices is the empty slice for a missing key; \<open>m[k] = v\<close> replaces
  the entry of \<open>k\<close> or adds one.
\<close>

definition map_get :: "('k, 'v list) gomap \<Rightarrow> 'k \<Rightarrow> 'v list" where
  "map_get m k = (case map_of m k of None \<Rightarrow> [] | Some v \<Rightarrow> v)"

fun map_put :: "('k, 'v) gomap \<Rightarrow> 'k \<Rightarrow> 'v \<Rightarrow> ('k, 'v) gomap" where
  "map_put [] k v = [(k, v)]"
| "map_put ((k', v') # m) k v = (if k' = k then (k, v) # m else (k', v') # map_put m k v)"

subsection \<open>utils.ExpandPath, utils.FileHash, utils.DirSize, utils.ShortenPath\<close>

definition ExpandPath :: "'w os \<Rightarrow> 'w \<Rightarrow> string \<Rightarrow> string" where
  "ExpandPath os w path =
     (if HasPrefix path ''~'' then filepath_Join os (os_UserHomeDir os w) (drop 1 path)
      else path)"

definition FileHash :: "'w os \<Rightarrow> 'w \<Rightarrow> string \<Rightarrow> string" where
  "FileHash os w path =
     (case os_Open os w path of
        Inl err \<Rightarrow> []
      | Inr content \<Rightarrow> hex_digest (md5_Sum os (take 4096 content)))"

definition DirSize_visit :: "int64 WalkFunc" where
  "DirSize_visit path info err sz =
     (if err \<noteq> None then (WalkNil, sz)
      else (case info of
              None \<Rightarrow> (WalkNil, sz)
            | Some i \<Rightarrow> if \<not> IsDir i then (WalkNil, sz + info_Size i) else (WalkNil, sz)))"

definition DirSize :: "'w os \<Rightarrow> 'w \<Rightarrow> string \<Rightarrow> int64" where
  "DirSize os w path = Walk DirSize_visit (filepath_Tree os w path) 0"

definition ShortenPath :: "string \<Rightarrow> int \<Rightarrow> string" where
  "ShortenPath path maxLen =
     (if int (length path) \<le> maxLen then path
      else if maxLen \<le> 3 then ''...''
      else ''...'' @ drop (nat (int (length path) - maxLen + 3)) path)"

subsection \<open>scanner.ScanDuplicates\<close>

record DuplicateGroup =
  Hash :: string
  GroupSize :: int64
  Files :: "string list"

definition skipDirs :: "string list" where
  "skipDirs = [''.git'', ''node_modules'', ''vendor'', ''Library'']"

text \<open>
  The callback of the first pass; its captured variables are \<open>scannedCount\<close>,
  \<open>sizeMap\<close> and the messages given to \<open>progress\<close>.
\<close>

type_synonym scan_acc = "nat \<times> (int64, string list) gomap \<times> string list"

definition scan_visit :: "scan_acc WalkFunc" where
  "scan_visit path info err acc =
     (case acc of (scannedCount, sizeMap, progress) \<Rightarrow>
      if err \<noteq> None then (WalkNil, acc)
      else (case info of
              None \<Rightarrow> (WalkNil, acc)
            | Some i \<Rightarrow>
                if IsDir i then
                  (if info_Name i \<in> set skipDirs \<or> HasPrefix (info_Name i) ''.''
                   then (SkipDir, acc) else (WalkNil, acc))
                else
                  (let scannedCount = scannedCount + 1;
                       progress =
                         (if scannedCount mod 500 = 0
                          then progress @ [''Scanned '' @ show_nat scannedCount @ '' files...'']
                          else progress);
                       sizeMap =
                         (if 1048576 <s info_Size i
                          then map_put sizeMap (info_Size i) (map_get sizeMap (info_Size i) @ [path])
                          else sizeMap)
                   in (WalkNil, (scannedCount, sizeMap, progress)))))"

fun scan_dirs :: "'w os \<Rightarrow> 'w \<Rightarrow> string list \<Rightarrow> scan_acc \<Rightarrow> scan_acc" where
  "scan_dirs os w [] acc = acc"
| "scan_dirs os w (dir # dirs) acc =
     (case os_Stat os w dir of
        Inl err \<Rightarrow>
          if IsNotExist err then scan_dirs os w dirs acc
          else scan_dirs os w dirs (Walk scan_visit (filepath_Tree os w dir) acc)
      | Inr info \<Rightarrow> scan_dirs os w dirs (Walk scan_visit (filepath_Tree os w dir) acc))"

text \<open>
  The second pass hashes the files of every size that at least two files have, into one
  \<open>hashMap\<close> for all sizes; the third pass makes a group of every hash with more than
  one path and takes the group's size from \<open>os.Stat\<close> of its first path.
\<close>

type_synonym hash_acc = "(string, string list) gomap \<times> nat \<times> string list"

fun hash_paths :: "'w os \<Rightarrow> 'w \<Rightarrow> nat \<Rightarrow> string list \<Rightarrow> hash_acc \<Rightarrow> hash_acc" where
  "hash_paths os w totalPaths [] acc = acc"
| "hash_paths os w totalPaths (path # paths) (hashMap, hashCount, progress) =
     (let hash = FileHash os w path;
          hashMap = (if hash \<noteq> [] then map_put hashMap hash (map_get hashMap hash @ [path])
                     else hashMap);
          hashCount = hashCount + 1;
          progress =
            (if hashCount mod 10 = 0
             then progress @ [''Hashed '' @ show_nat hashCount @ ''/'' @ show_nat totalPaths @ '' files...'']
             else progress)
      in hash_paths os w totalPaths paths (hashMap, hashCount, progress))"

fun hash_buckets ::
  "'w os \<Rightarrow> 'w \<Rightarrow> nat \<Rightarrow> (int64, string list) gomap \<Rightarrow> hash_acc \<Rightarrow> hash_acc" where
  "hash_buckets os w totalPaths [] acc = acc"
| "hash_buckets os w totalPaths ((sz, paths) # buckets) acc =
     (if length paths < 2 then hash_buckets os w totalPaths buckets acc
      else hash_buckets os w totalPaths buckets (hash_paths os w totalPaths paths acc))"

fun make_groups ::
  "'w os \<Rightarrow> 'w \<Rightarrow> (string, string list) gomap \<Rightarrow> DuplicateGroup list \<times> int64
    \<Rightarrow> DuplicateGroup list \<times> int64" where
  "make_groups os w [] acc = acc"
| "make_groups os w ((hash, paths) # rest) (groups, totalSize) =
     (if length paths > 1 then
        (case os_Stat os w (hd paths) of
           Inl err \<Rightarrow> make_groups os w rest (groups, totalSize)
         | Inr info \<Rightarrow>
             make_groups os w rest
               (groups @ [\<lparr>Hash = hash, GroupSize = info_Size info, Files = paths\<rparr>],
                totalSize + info_Size info * of_nat (length paths - 1)))
      else make_groups os w rest (groups, totalSize))"

definition ScanDuplicates :: "'w os \<Rightarrow> 'w \<Rightarrow> (DuplicateGroup list \<times> int64) \<times> string list" where
  "ScanDuplicates os w =
     (let dirs = [ExpandPath os w ''~/Documents'', ExpandPath os w ''~/Desktop'',
                  ExpandPath os w ''~/Downloads''] in
      case scan_dirs os w dirs (0, [], []) of
        (scannedCount, sizeMap, progress) \<Rightarrow>
          (let progress = progress @ [''Found '' @ show_nat (length sizeMap)
                 @ '' files with unique sizes, checking for duplicates...''];
               totalPaths = sum_list (map (\<lambda>(sz, paths). length paths) (range_sizeMap os sizeMap))
           in case hash_buckets os w totalPaths (range_sizeMap os sizeMap) ([], 0, progress) of
                (hashMap, hashCount, progress) \<Rightarrow>
                  (make_groups os w (range_hashMap os hashMap) ([], 0), progress)))"

subsection \<open>utils.SudoManager and the calls that change the world\<close>

record SudoManager =
  HasSudo :: bool
  LastAuth :: int
  Timeout :: int

text \<open>
  The state of a run: the world, the sudo manager that the cleaner holds, and the log of
  the calls made so far that act on the world or report progress. The program does not
  read the log; it is there to state which calls a function makes.
\<close>

datatype effect =
    EvRemove string
  | EvRemoveAll string
  | EvCommand "string list"
  | EvProgress string

record 'w state =
  world :: 'w
  sudoMgr :: SudoManager
  trace :: "effect list"

definition do_Remove :: "'w os \<Rightarrow> string \<Rightarrow> 'w state \<Rightarrow> error option \<times> 'w state" where
  "do_Remove os path s =
     (case os_Remove os (world s) path of
        (err, w') \<Rightarrow> (err, s\<lparr>world := w', trace := trace s @ [EvRemove path]\<rparr>))"

definition do_RemoveAll :: "'w os \<Rightarrow> string \<Rightarrow> 'w state \<Rightarrow> error option \<times> 'w state" where
  "do_RemoveAll os path s =
     (case os_RemoveAll os (world s) path of
        (err, w') \<Rightarrow> (err, s\<lparr>world := w', trace := trace s @ [EvRemoveAll path]\<rparr>))"

definition do_Command ::
  "'w os \<Rightarrow> capture \<Rightarrow> string list \<Rightarrow> 'w state \<Rightarrow> (error option \<times> string) \<times> 'w state" where
  "do_Command os cap argv s =
     (case exec_Command os (world s) cap argv of
        (res, w') \<Rightarrow> (res, s\<lparr>world := w', trace := trace s @ [EvCommand argv]\<rparr>))"

definition progress :: "string \<Rightarrow> 'w state \<Rightarrow> 'w state" where
  "progress status s = s\<lparr>trace := trace s @ [EvProgress status]\<rparr>"

text \<open>
  \<open>EnsureSudo\<close>: with valid credentials of less than \<open>Timeout\<close> ago, \<open>sudo -n true\<close>
  refreshes them; otherwise, or when the refresh fails, \<open>sudo -v\<close> asks for the password
  (\<open>authenticate\<close>). \<open>SudoRun\<close> is the method \<open>Run\<close>.
\<close>

definition authenticate :: "'w os \<Rightarrow> 'w state \<Rightarrow> error option \<times> 'w state" where
  "authenticate os s =
     (case do_Command os Run [''sudo'', ''-v''] s of
        ((err, out), s1) \<Rightarrow>
          if err \<noteq> None
          then (Some (ErrText ''sudo authentication failed''),
                s1\<lparr>sudoMgr := (sudoMgr s1)\<lparr>HasSudo := False\<rparr>\<rparr>)
          else (None,
                s1\<lparr>sudoMgr := (sudoMgr s1)\<lparr>HasSudo := True, LastAuth := time_Now os (world s1)\<rparr>\<rparr>))"

definition EnsureSudo :: "'w os \<Rightarrow> 'w state \<Rightarrow> error option \<times> 'w state" where
  "EnsureSudo os s =
     (if HasSudo (sudoMgr s) \<and> time_Now os (world s) - LastAuth (sudoMgr s) < Timeout (sudoMgr s)
      then (case do_Command os Run [''sudo'', ''-n'', ''true''] s of
              ((err, out), s1) \<Rightarrow>
                if err = None
                then (None, s1\<lparr>sudoMgr := (sudoMgr s1)\<lparr>LastAuth := time_Now os (world s1)\<rparr>\<rparr>)
                else authenticate os s1)
      else authenticate os s)"

definition SudoRun :: "'w os \<Rightarrow> string list \<Rightarrow> 'w state \<Rightarrow> error option \<times> 'w state" where
  "SudoRun os args s =
     (case EnsureSudo os s of
        (Some err, s1) \<Rightarrow> (Some err, s1)
      | (None, s1) \<Rightarrow>
          (case do_Command os Run (''sudo'' # args) s1 of ((err, out), s2) \<Rightarrow> (err, s2)))"

subsection \<open>package cleaner\<close>

record CleanupTarget =
  Name :: string
  Path :: string
  Description :: string
  Size :: int64
  Selected :: bool
  RequiresSudo :: bool
  Category :: string
  IsCommand :: bool
  Command :: string

record CleanResult =
  Target :: string
  Requested :: int64
  Actual :: int64
  Error :: "error option"
  Timestamp :: int

text \<open>
  \<open>strings.Fields\<close> splits a string around its runs of white space, which is what
  \<open>unicode.IsSpace\<close> accepts. A Go string is a string of bytes that \<open>Fields\<close> reads as
  UTF-8: \<open>white_space\<close> lists the encodings of the white-space characters (U+0009 to
  U+000D, U+0020, U+0085, U+00A0, U+1680, U+2000 to U+200A, U+2028, U+2029, U+202F, U+205F,
  U+3000), and \<open>space_width s\<close> is the number of bytes of the one that \<open>s\<close> begins with,
  0 when it begins with none. No encoding begins with a byte that continues a character,
  so a field may be taken byte by byte.
\<close>

definition white_space :: "string list" where
  "white_space =
     [[CHR 0x09], [CHR 0x0A], [CHR 0x0B], [CHR 0x0C], [CHR 0x0D], [CHR 0x20],
      [CHR 0xC2, CHR 0x85], [CHR 0xC2, CHR 0xA0], [CHR 0xE1, CHR 0x9A, CHR 0x80],
      [CHR 0xE2, CHR 0x80, CHR 0x80], [CHR 0xE2, CHR 0x80, CHR 0x81],
      [CHR 0xE2, CHR 0x80, CHR 0x82], [CHR 0xE2, CHR 0x80, CHR 0x83],
      [CHR 0xE2, CHR 0x80, CHR 0x84], [CHR 0xE2, CHR 0x80, CHR 0x85],
      [CHR 0xE2, CHR 0x80, CHR 0x86], [CHR 0xE2, CHR 0x80, CHR 0x87],
      [CHR 0xE2, CHR 0x80, CHR 0x88], [CHR 0xE2, CHR 0x80, CHR 0x89],
      [CHR 0xE2, CHR 0x80, CHR 0x8A], [CHR 0xE2, CHR 0x80, CHR 0xA8],
      [CHR 0xE2, CHR 0x80, CHR 0xA9], [CHR 0xE2, CHR 0x80, CHR 0xAF],
      [CHR 0xE2, CHR 0x81, CHR 0x9F], [CHR 0xE3, CHR 0x80, CHR 0x80]]"

definition space_width :: "string \<Rightarrow> nat" where
  "space_width s =
     (case filter (HasPrefix s) white_space of [] \<Rightarrow> 0 | sp # sps \<Rightarrow> length sp)"

lemma space_width_le: "space_width s \<le> length s"
proof (cases "filter (HasPrefix s) white_space")
  case Nil
  then show ?thesis
    by (simp add: space_width_def)
next
  case (Cons sp sps)
  then have "sp \<in> set (filter (HasPrefix s) white_space)"
    by simp
  then have "take (length sp) s = sp"
    by (simp add: HasPrefix_def)
  then have "length (take (length sp) s) = length sp"
    by simp
  then have "length sp \<le> length s"
    by simp
  with Cons show ?thesis
    by (simp add: space_width_def)
qed

function skip_space :: "string \<Rightarrow> string" where
  "skip_space s = (if space_width s = 0 then s else skip_space (drop (space_width s) s))"
  by pat_completeness auto
termination
proof (relation "measure length")
  show "wf (measure (length :: string \<Rightarrow> nat))"
    by simp
next
  fix s :: string
  assume "space_width s \<noteq> 0"
  with space_width_le [of s] show "(drop (space_width s) s, s) \<in> measure length"
    by simp
qed
declare skip_space.simps [simp del]

lemma skip_space_width: "space_width (skip_space s) = 0"
  by (induction s rule: skip_space.induct) (simp add: skip_space.simps)

lemma skip_space_length: "length (skip_space s) \<le> length s"
proof (induction s rule: skip_space.induct)
  case (1 s)
  show ?case
  proof (cases "space_width s = 0")
    case True
    then show ?thesis
      by (simp add: skip_space.simps)
  next
    case False
    with 1 have "length (skip_space (drop (space_width s) s)) \<le> length (drop (space_width s) s)"
      by simp
    with False show ?thesis
      by (simp add: skip_space.simps [of s])
  qed
qed

fun first_field :: "string \<Rightarrow> string" where
  "first_field [] = []"
| "first_field (c # s) = (if space_width (c # s) = 0 then c # first_field s else [])"

function Fields :: "string \<Rightarrow> string list" where
  "Fields s =
     (let s1 = skip_space s in
      if s1 = [] then []
      else first_field s1 # Fields (drop (length (first_field s1)) s1))"
  by pat_completeness auto
termination
proof (relation "measure length")
  show "wf (measure (length :: string \<Rightarrow> nat))"
    by simp
next
  fix s s1 :: string
  assume s1: "s1 = skip_space s" and ne: "s1 \<noteq> []"
  have "space_width s1 = 0"
    using s1 skip_space_width by simp
  with ne have "first_field s1 \<noteq> []"
    by (cases s1) simp_all
  with ne have "length (drop (length (first_field s1)) s1) < length s1"
    by simp
  also have "length s1 \<le> length s"
    using s1 skip_space_length by simp
  finally show "(drop (length (first_field s1)) s1, s) \<in> measure length"
    by simp
qed
declare Fields.simps [simp del]

lemma Fields_examples:
  "Fields ''  rm -rf  /tmp/x '' = [''rm'', ''-rf'', ''/tmp/x'']"
  "Fields [CHR ''a'', CHR 0xC2, CHR 0xA0, CHR ''b'', CHR 0x09] = [''a'', ''b'']"
  "Fields ''   '' = []"
  by (simp_all add: Fields.simps skip_space.simps space_width_def white_space_def HasPrefix_def)

definition executeCommand :: "'w os \<Rightarrow> string \<Rightarrow> 'w state \<Rightarrow> error option \<times> 'w state" where
  "executeCommand os command s =
     (let parts = Fields command in
      if parts = [] then (Some (ErrText ''empty command''), s)
      else (case do_Command os CombinedOutput parts s of
              ((Some err, output), s1) \<Rightarrow> (Some (ErrOutput err output), s1)
            | ((None, output), s1) \<Rightarrow> (None, s1)))"

text \<open>
  \<open>calculateActualSize\<close> of a pattern with a \<open>*\<close>: the files that \<open>find\<close> lists below
  the text before the first \<open>*\<close> (\<open>sum_found\<close>), or, when \<open>find\<close> fails, the walk
  \<open>walkCalculateSize\<close>.
\<close>

definition walkCalculateSize_visit :: "'w os \<Rightarrow> string \<Rightarrow> int64 WalkFunc" where
  "walkCalculateSize_visit os pattern path info err tot =
     (if err \<noteq> None then (WalkNil, tot)
      else (case info of
              None \<Rightarrow> (WalkNil, tot)
            | Some i \<Rightarrow>
                if IsDir i then (WalkNil, tot)
                else if filepath_Match os pattern path = Inr True
                then (WalkNil, tot + info_Size i)
                else (WalkNil, tot)))"

definition walkCalculateSize :: "'w os \<Rightarrow> 'w \<Rightarrow> string \<Rightarrow> string \<Rightarrow> int64" where
  "walkCalculateSize os w basePath pattern =
     Walk (walkCalculateSize_visit os pattern) (filepath_Tree os w basePath) 0"

fun sum_found :: "'w os \<Rightarrow> 'w \<Rightarrow> string \<Rightarrow> string list \<Rightarrow> int64 \<Rightarrow> int64" where
  "sum_found os w pattern [] tot = tot"
| "sum_found os w pattern (file # files) tot =
     (if file = [] then sum_found os w pattern files tot
      else if filepath_Match os pattern file = Inr True
      then (case os_Stat os w file of
              Inr info \<Rightarrow>
                if \<not> IsDir info then sum_found os w pattern files (tot + info_Size info)
                else sum_found os w pattern files tot
            | Inl err \<Rightarrow> sum_found os w pattern files tot)
      else sum_found os w pattern files tot)"

definition calculateActualSize :: "'w os \<Rightarrow> string \<Rightarrow> 'w state \<Rightarrow> int64 \<times> 'w state" where
  "calculateActualSize os pattern s =
     (if Contains pattern (CHR ''*'') then
        (let basePath = hd (Split pattern (CHR ''*'')) in
         case do_Command os Output [''find'', basePath, ''-type'', ''f'', ''-print0''] s of
           ((Some err, output), s1) \<Rightarrow> (walkCalculateSize os (world s1) basePath pattern, s1)
         | ((None, output), s1) \<Rightarrow>
             (sum_found os (world s1) pattern (Split output NUL) 0, s1))
      else (case os_Stat os (world s) pattern of
              Inl err \<Rightarrow> (0, s)
            | Inr info \<Rightarrow>
                if IsDir info then (DirSize os (world s) pattern, s)
                else (info_Size info, s)))"

definition deleteSinglePath :: "'w os \<Rightarrow> string \<Rightarrow> bool \<Rightarrow> 'w state \<Rightarrow> error option \<times> 'w state" where
  "deleteSinglePath os path useSudo s =
     (case os_Stat os (world s) path of
        Inl err \<Rightarrow>
          if IsNotExist err then (None, s)
          else (Some (ErrWrap ''cannot access path'' err), s)
      | Inr info \<Rightarrow>
          if useSudo then
            (case SudoRun os [''rm'', ''-rf'', path] s of
               (Some err, s1) \<Rightarrow> (Some (ErrWrap ''sudo rm failed'' err), s1)
             | (None, s1) \<Rightarrow> (None, s1))
          else if IsDir info then
            (case do_RemoveAll os path s of
               (Some err, s1) \<Rightarrow> (Some (ErrWrap ''remove directory failed'' err), s1)
             | (None, s1) \<Rightarrow> (None, s1))
          else
            (case do_Remove os path s of
               (Some err, s1) \<Rightarrow> (Some (ErrWrap ''remove file failed'' err), s1)
             | (None, s1) \<Rightarrow> (None, s1)))"

fun deletePath_loop ::
  "'w os \<Rightarrow> bool \<Rightarrow> string list \<Rightarrow> error option \<times> nat \<Rightarrow> 'w state
    \<Rightarrow> (error option \<times> nat) \<times> 'w state" where
  "deletePath_loop os useSudo [] acc s = (acc, s)"
| "deletePath_loop os useSudo (match # matches) (lastErr, deletedCount) s =
     (case deleteSinglePath os match useSudo s of
        (Some err, s1) \<Rightarrow> deletePath_loop os useSudo matches (Some err, deletedCount) s1
      | (None, s1) \<Rightarrow> deletePath_loop os useSudo matches (lastErr, deletedCount + 1) s1)"

definition deletePath :: "'w os \<Rightarrow> string \<Rightarrow> bool \<Rightarrow> 'w state \<Rightarrow> error option \<times> 'w state" where
  "deletePath os path useSudo s =
     (if Contains path (CHR ''*'') then
        (case filepath_Glob os (world s) path of
           Inl err \<Rightarrow> (Some (ErrWrap ''glob failed'' err), s)
         | Inr matches \<Rightarrow>
             if length matches = 0 then (None, s)
             else (case deletePath_loop os useSudo matches (None, 0) s of
                     ((lastErr, deletedCount), s1) \<Rightarrow>
                       (case lastErr of
                          Some err \<Rightarrow>
                            if deletedCount = 0
                            then (Some (ErrWrap ''failed to delete any files'' err), s1)
                            else (None, s1)
                        | None \<Rightarrow> (None, s1))))
      else deleteSinglePath os path useSudo s)"

definition cleanTarget :: "'w os \<Rightarrow> CleanupTarget \<Rightarrow> 'w state \<Rightarrow> CleanResult \<times> 'w state" where
  "cleanTarget os target s =
     (let result = \<lparr>Target = Name target, Requested = Size target, Actual = 0, Error = None,
                     Timestamp = time_Now os (world s)\<rparr> in
      if IsCommand target \<and> Command target \<noteq> [] then
        (case executeCommand os (Command target) s of
           (Some err, s1) \<Rightarrow>
             (result\<lparr>Error := Some (ErrWrap ''command failed'' err), Actual := Size target\<rparr>, s1)
         | (None, s1) \<Rightarrow> (result\<lparr>Actual := Size target\<rparr>, s1))
      else
        (let path = ExpandPath os (world s) (Path target);
             expandedPath = ExpandPath os (world s) (Path target) in
         case filepath_Glob os (world s) expandedPath of
           Inl err \<Rightarrow> (result\<lparr>Error := Some (ErrWrap ''invalid path pattern'' err)\<rparr>, s)
         | Inr matches \<Rightarrow>
             if length matches = 0 then (result\<lparr>Actual := 0\<rparr>, s)
             else (case calculateActualSize os path s of
                     (actualBefore, s1) \<Rightarrow>
                       (case deletePath os path (RequiresSudo target) s1 of
                          (Some err, s2) \<Rightarrow>
                            (result\<lparr>Error := Some (ErrWrap (''failed to delete '' @ Path target) err)\<rparr>, s2)
                        | (None, s2) \<Rightarrow>
                            (case calculateActualSize os path s2 of
                               (actualAfter, s3) \<Rightarrow>
                                 (result\<lparr>Actual := actualBefore - actualAfter\<rparr>, s3))))))"

text \<open>
  The loop of \<open>CleanTargets\<close> writes \<open>target.Size = 0\<close> through a pointer into the
  caller's slice: the function returns the slice as it is after the run.
\<close>

fun CleanTargets_loop ::
  "'w os \<Rightarrow> CleanupTarget list \<Rightarrow> CleanResult list \<times> int64 \<Rightarrow> 'w state
    \<Rightarrow> (CleanResult list \<times> int64) \<times> CleanupTarget list \<times> 'w state" where
  "CleanTargets_loop os [] acc s = (acc, [], s)"
| "CleanTargets_loop os (target # targets) (results, totalSaved) s =
     (if \<not> Selected target then
        (case CleanTargets_loop os targets (results, totalSaved) s of
           (acc, targets', s') \<Rightarrow> (acc, target # targets', s'))
      else
        (case cleanTarget os target (progress (''Cleaning: '' @ Name target) s) of
           (result, s1) \<Rightarrow>
             if Error result = None then
               (case CleanTargets_loop os targets (results @ [result], totalSaved + Actual result) s1 of
                  (acc, targets', s') \<Rightarrow> (acc, target\<lparr>Size := 0\<rparr> # targets', s'))
             else
               (case CleanTargets_loop os targets (results @ [result], totalSaved) s1 of
                  (acc, targets', s') \<Rightarrow> (acc, target # targets', s'))))"

definition CleanTargets ::
  "'w os \<Rightarrow> CleanupTarget list \<Rightarrow> 'w state
    \<Rightarrow> (CleanResult list \<times> int64) \<times> CleanupTarget list \<times> 'w state" where
  "CleanTargets os targets s =
     (let needsSudo = list_ex (\<lambda>t. Selected t \<and> RequiresSudo t) targets in
      if needsSudo then
        (case EnsureSudo os s of
           (Some err, s1) \<Rightarrow> (([], 0), targets, s1)
         | (None, s1) \<Rightarrow> CleanTargets_loop os targets ([], 0) s1)
      else CleanTargets_loop os targets ([], 0) s)"

text \<open>
  \<open>DeleteFiles\<close>; \<open>DeleteFiles_remove\<close> is the removal of one file, with \<open>sudo rm -f\<close>
  after a failed \<open>os.Remove\<close> outside the home directory.
\<close>

definition DeleteFiles_remove ::
  "'w os \<Rightarrow> bool \<Rightarrow> string \<Rightarrow> 'w state \<Rightarrow> error option \<times> 'w state" where
  "DeleteFiles_remove os needsSudo file s =
     (if needsSudo then
        (case do_Remove os file s of
           (Some err, s1) \<Rightarrow> SudoRun os [''rm'', ''-f'', file] s1
         | (None, s1) \<Rightarrow> (None, s1))
      else do_Remove os file s)"

fun DeleteFiles_loop :: "'w os \<Rightarrow> string list \<Rightarrow> int64 \<Rightarrow> 'w state \<Rightarrow> int64 \<times> 'w state" where
  "DeleteFiles_loop os [] totalDeleted s = (totalDeleted, s)"
| "DeleteFiles_loop os (file # files) totalDeleted s =
     (let s0 = progress (''Deleting: '' @ ShortenPath file 40) s in
      case os_Stat os (world s0) file of
        Inl err \<Rightarrow> DeleteFiles_loop os files totalDeleted s0
      | Inr info \<Rightarrow>
          (let needsSudo = \<not> HasPrefix file (os_Getenv os (world s0) ''HOME'') in
           case DeleteFiles_remove os needsSudo file s0 of
             (deleteErr, s2) \<Rightarrow>
               if deleteErr = None
               then DeleteFiles_loop os files (totalDeleted + info_Size info) s2
               else DeleteFiles_loop os files totalDeleted s2))"

definition DeleteFiles :: "'w os \<Rightarrow> string list \<Rightarrow> 'w state \<Rightarrow> int64 \<times> 'w state" where
  "DeleteFiles os files s = DeleteFiles_loop os files 0 s"

fun filesToDelete ::
  "DuplicateGroup list \<Rightarrow> (int \<times> bool) list \<Rightarrow> string list \<Rightarrow> panic + string list" where
  "filesToDelete groups [] acc = Inr acc"
| "filesToDelete groups ((i, sel) # selected) acc =
     (if \<not> sel \<or> i \<ge> int (length groups) then filesToDelete groups selected acc
      else (case index groups i of
              Inl p \<Rightarrow> Inl p
            | Inr grp \<Rightarrow>
                filesToDelete groups selected
                  (acc @ map (\<lambda>j. Files grp ! j) [1..<length (Files grp)])))"

definition DeleteDuplicates ::
  "'w os \<Rightarrow> DuplicateGroup list \<Rightarrow> (int \<times> bool) list \<Rightarrow> 'w state
    \<Rightarrow> panic + int64 \<times> 'w state" where
  "DeleteDuplicates os groups selected s =
     (case filesToDelete groups selected [] of
        Inl p \<Rightarrow> Inl p
      | Inr files \<Rightarrow> Inr (DeleteFiles os files s))"

section \<open>Notions of the specification\<close>

text \<open>
  Reclaimable bytes, in the specification's words: the sum over all groups of
  size times (member count - 1).
\<close>

definition reclaimable :: "DuplicateGroup list \<Rightarrow> int64" where
  "reclaimable groups = (\<Sum>g\<leftarrow>groups. GroupSize g * (of_nat (length (Files g)) - 1))"

text \<open>
  The same sum over the integers, with every size read in two's complement.
\<close>

definition reclaimable_int :: "DuplicateGroup list \<Rightarrow> int" where
  "reclaimable_int groups = (\<Sum>g\<leftarrow>groups. sint (GroupSize g) * (int (length (Files g)) - 1))"




text \<open>
  The calls a function adds to the log, the paths those calls are to remove, and the
  progress messages among them.
\<close>

definition new_events :: "'w state \<Rightarrow> 'w state \<Rightarrow> effect list" where
  "new_events s s' = drop (length (trace s)) (trace s')"

definition extends :: "'w state \<Rightarrow> 'w state \<Rightarrow> bool" where
  "extends s s' = (take (length (trace s)) (trace s') = trace s)"

definition sudo_check :: "effect \<Rightarrow> bool" where
  "sudo_check e = (e = EvCommand [''sudo'', ''-n'', ''true''] \<or> e = EvCommand [''sudo'', ''-v''])"

definition removal_target :: "effect \<Rightarrow> string list" where
  "removal_target e =
     (case e of
        EvRemove p \<Rightarrow> [p]
      | EvRemoveAll p \<Rightarrow> [p]
      | EvCommand argv \<Rightarrow> if take 2 argv = [''sudo'', ''rm''] then [last argv] else []
      | EvProgress m \<Rightarrow> [])"

definition removals :: "effect list \<Rightarrow> string list" where
  "removals evs = concat (map removal_target evs)"

definition messages :: "effect list \<Rightarrow> string list" where
  "messages evs = concat (map (\<lambda>e. case e of EvProgress m \<Rightarrow> [m] | _ \<Rightarrow> []) evs)"

text \<open>
  The files that deleting duplicates is to delete, in the specification's words: of every
  selected group, the member paths after the first one.
\<close>

definition doomed :: "DuplicateGroup list \<Rightarrow> (int \<times> bool) list \<Rightarrow> string list" where
  "doomed groups selected =
     concat (map (\<lambda>(i, sel). if sel \<and> 0 \<le> i \<and> i < int (length groups)
                              then tl (Files (groups ! nat i)) else []) selected)"

text \<open>
  Deleting one file, as the comments of \<open>DeleteFiles\<close> describe it: the file is reported;
  a file that \<open>os.Stat\<close> does not find may already be gone and is passed over; otherwise
  \<open>os.Remove\<close> is called on it, and when that fails on a path outside the home directory,
  \<open>sudo rm -f\<close> is run on it once \<open>EnsureSudo\<close> has succeeded. \<open>delete_files\<close> does so for
  every file of a list in turn.
\<close>

definition delete_file :: "'w os \<Rightarrow> string \<Rightarrow> 'w state \<Rightarrow> 'w state" where
  "delete_file os f a =
     (let a0 = a\<lparr>trace := trace a @ [EvProgress (''Deleting: '' @ ShortenPath f 40)]\<rparr> in
      case os_Stat os (world a) f of
        Inl err \<Rightarrow> a0
      | Inr info \<Rightarrow>
          (case os_Remove os (world a) f of
             (err, w1) \<Rightarrow>
               (let a1 = a0\<lparr>world := w1, trace := trace a0 @ [EvRemove f]\<rparr> in
                if err = None \<or> HasPrefix f (os_Getenv os (world a) ''HOME'') then a1
                else (case EnsureSudo os a1 of
                        (Some e, a2) \<Rightarrow> a2
                      | (None, a2) \<Rightarrow>
                          (case exec_Command os (world a2) Run [''sudo'', ''rm'', ''-f'', f] of
                             (res, w3) \<Rightarrow>
                               a2\<lparr>world := w3,
                                  trace := trace a2 @ [EvCommand [''sudo'', ''rm'', ''-f'', f]]\<rparr>)))))"

definition delete_files :: "'w os \<Rightarrow> string list \<Rightarrow> 'w state \<Rightarrow> 'w state" where
  "delete_files os files s = foldl (\<lambda>a f. delete_file os f a) s files"



section \<open>An operating system in memory, for worked examples\<close>

text \<open>
  A small file system: a directory tree, the contents of its regular files, the paths
  whose removal is refused to the user, and whether \<open>sudo\<close> authenticates and \<open>find\<close>
  runs. \<open>os.Stat\<close> follows symbolic links, and the links of the examples point to
  nothing. \<open>glob_match\<close> knows literal characters and \<open>*\<close>, which matches within one
  path segment; a pattern with \<open>[\<close> and no \<open>]\<close> is malformed, as it is for
  \<open>filepath.Match\<close>. \<open>find\<close> prints the regular files below its root. \<open>os.Open\<close> opens
  a directory, and the \<open>Read\<close> after it yields no bytes. \<open>sudo\<close> runs a command only when
  it authenticates; \<open>rm -f\<close> is content with a path that does not exist and refuses a
  directory, \<open>rm -rf\<close> removes a directory with what is below it. \<open>filepath.Join\<close> puts a
  \<open>/\<close> between its non-empty arguments and cleans the result as \<open>filepath.Clean\<close> does:
  no empty and no \<open>.\<close> element, and no \<open>..\<close> after an element that it can cancel.
\<close>

record memfs =
  root :: dirtree
  contents :: "(string \<times> 8 word list) list"
  denied :: "string list"
  sudo_ok :: bool
  find_ok :: bool
  home :: string
  clock :: int

fun path_of :: "dirtree \<Rightarrow> string" where
  "path_of (LstatError p e) = p"
| "path_of (Entry p i e names) = p"

fun flatten :: "dirtree \<Rightarrow> (string \<times> FileInfo) list"
  and flatten_list :: "dirtree list \<Rightarrow> (string \<times> FileInfo) list" where
  "flatten (LstatError p e) = []"
| "flatten (Entry p i e names) = (p, i) # flatten_list names"
| "flatten_list [] = []"
| "flatten_list (t # ts) = flatten t @ flatten_list ts"

fun find_node :: "string \<Rightarrow> dirtree \<Rightarrow> dirtree option"
  and find_in :: "string \<Rightarrow> dirtree list \<Rightarrow> dirtree option" where
  "find_node q (LstatError p e) = None"
| "find_node q (Entry p i e names) =
     (if p = q then Some (Entry p i e names) else find_in q names)"
| "find_in q [] = None"
| "find_in q (t # ts) = (case find_node q t of Some n \<Rightarrow> Some n | None \<Rightarrow> find_in q ts)"

fun prune :: "string \<Rightarrow> dirtree \<Rightarrow> dirtree"
  and prune_list :: "string \<Rightarrow> dirtree list \<Rightarrow> dirtree list" where
  "prune q (LstatError p e) = LstatError p e"
| "prune q (Entry p i e names) = Entry p i e (prune_list q names)"
| "prune_list q [] = []"
| "prune_list q (t # ts) =
     (if path_of t = q then prune_list q ts else prune q t # prune_list q ts)"

definition strip_slash :: "string \<Rightarrow> string" where
  "strip_slash p = (if 1 < length p \<and> last p = CHR ''/'' then butlast p else p)"

definition mem_Lstat :: "memfs \<Rightarrow> string \<Rightarrow> FileInfo option" where
  "mem_Lstat w p = map_of (flatten (root w)) (strip_slash p)"

definition mem_Stat :: "memfs \<Rightarrow> string \<Rightarrow> error + FileInfo" where
  "mem_Stat w p =
     (case mem_Lstat w p of
        None \<Rightarrow> Inl ErrNotExist
      | Some i \<Rightarrow> if info_Mode i = ModeSymlink then Inl ErrNotExist else Inr i)"

definition mem_Open :: "memfs \<Rightarrow> string \<Rightarrow> error + 8 word list" where
  "mem_Open w p =
     (case mem_Stat w p of
        Inl e \<Rightarrow> Inl e
      | Inr i \<Rightarrow>
          if IsDir i then Inr []
          else (case map_of (contents w) p of None \<Rightarrow> Inl ErrPermission | Some c \<Rightarrow> Inr c))"

definition mem_Tree :: "memfs \<Rightarrow> string \<Rightarrow> dirtree" where
  "mem_Tree w p =
     (case find_node (strip_slash p) (root w) of
        Some (Entry q i e names) \<Rightarrow> Entry p i e names
      | _ \<Rightarrow> LstatError p ErrNotExist)"

definition mem_Remove :: "memfs \<Rightarrow> string \<Rightarrow> error option \<times> memfs" where
  "mem_Remove w p =
     (if p \<in> set (denied w) then (Some ErrPermission, w)
      else (case find_node p (root w) of
              Some (Entry q i e names) \<Rightarrow>
                if names \<noteq> [] then (Some (ErrText ''directory not empty''), w)
                else (None, w\<lparr>root := prune p (root w)\<rparr>)
            | _ \<Rightarrow> (Some ErrNotExist, w)))"

definition mem_RemoveAll :: "memfs \<Rightarrow> string \<Rightarrow> error option \<times> memfs" where
  "mem_RemoveAll w p =
     (if p \<in> set (denied w) then (Some ErrPermission, w)
      else (None, w\<lparr>root := prune p (root w)\<rparr>))"

fun glob_match :: "string \<Rightarrow> string \<Rightarrow> bool" where
  "glob_match [] [] = True"
| "glob_match [] (c # name) = False"
| "glob_match (p # pat) [] = (p = CHR ''*'' \<and> glob_match pat [])"
| "glob_match (p # pat) (c # name) =
     (if p = CHR ''*''
      then glob_match pat (c # name) \<or> (c \<noteq> CHR ''/'' \<and> glob_match (p # pat) name)
      else p = c \<and> glob_match pat name)"

definition bad_pattern :: "string \<Rightarrow> bool" where
  "bad_pattern pat = (CHR ''['' \<in> set pat \<and> CHR '']'' \<notin> set pat)"

definition mem_Match :: "string \<Rightarrow> string \<Rightarrow> error + bool" where
  "mem_Match pat name = (if bad_pattern pat then Inl ErrBadPattern else Inr (glob_match pat name))"

definition mem_Glob :: "memfs \<Rightarrow> string \<Rightarrow> error + string list" where
  "mem_Glob w pat =
     (if bad_pattern pat then Inl ErrBadPattern
      else Inr (filter (glob_match pat) (map fst (flatten (root w)))))"

definition mem_find :: "memfs \<Rightarrow> string \<Rightarrow> (error option \<times> string) \<times> memfs" where
  "mem_find w base =
     (case find_node (strip_slash base) (root w) of
        None \<Rightarrow> ((Some ErrExit, []), w)
      | Some n \<Rightarrow>
          if find_ok w
          then ((None, concat (map (\<lambda>(p, i). p @ [NUL])
                   (filter (\<lambda>(p, i). info_Mode i = ModeRegular) (flatten n)))), w)
          else ((Some ErrExit, []), w))"

definition mem_rm :: "memfs \<Rightarrow> bool \<Rightarrow> string \<Rightarrow> (error option \<times> string) \<times> memfs" where
  "mem_rm w recursive p =
     (case mem_Lstat w p of
        None \<Rightarrow> ((None, []), w)
      | Some i \<Rightarrow>
          if IsDir i \<and> \<not> recursive then ((Some ErrExit, []), w)
          else ((None, []), w\<lparr>root := prune (strip_slash p) (root w)\<rparr>))"

definition mem_Command :: "memfs \<Rightarrow> capture \<Rightarrow> string list \<Rightarrow> (error option \<times> string) \<times> memfs" where
  "mem_Command w cap argv =
     (if take 1 argv = [''sudo''] \<and> \<not> sudo_ok w then ((Some ErrExit, []), w)
      else if argv = [''sudo'', ''-n'', ''true''] \<or> argv = [''sudo'', ''-v'']
      then ((None, []), w)
      else if take 3 argv = [''sudo'', ''rm'', ''-rf''] \<and> length argv = 4
      then mem_rm w True (argv ! 3)
      else if take 3 argv = [''sudo'', ''rm'', ''-f''] \<and> length argv = 4
      then mem_rm w False (argv ! 3)
      else if take 1 argv = [''find''] \<and> drop 2 argv = [''-type'', ''f'', ''-print0'']
      then mem_find w (argv ! 1)
      else ((Some ErrExit, []), w))"

definition clean_step :: "bool \<Rightarrow> string list \<Rightarrow> string \<Rightarrow> string list" where
  "clean_step rooted st c =
     (if c = [] \<or> c = ''.'' then st
      else if c = ''..'' then
        (if st \<noteq> [] \<and> last st \<noteq> ''..'' then butlast st
         else if rooted then st
         else st @ [''..''])
      else st @ [c])"

fun join_slash :: "string list \<Rightarrow> string" where
  "join_slash [] = []"
| "join_slash [c] = c"
| "join_slash (c # d # cs) = c @ ''/'' @ join_slash (d # cs)"

definition mem_Clean :: "string \<Rightarrow> string" where
  "mem_Clean p =
     (let rooted = HasPrefix p ''/'';
          st = foldl (clean_step rooted) [] (Split p (CHR ''/''))
      in if rooted then ''/'' @ join_slash st
         else if st = [] then ''.''
         else join_slash st)"

definition mem_Join :: "string \<Rightarrow> string \<Rightarrow> string" where
  "mem_Join a b =
     (if a = [] \<and> b = [] then []
      else if a = [] then mem_Clean b
      else if b = [] then mem_Clean a
      else mem_Clean (a @ ''/'' @ b))"

lemma mem_Join_home:
  "mem_Join ''/home/u'' ''/Documents'' = ''/home/u/Documents''"
  "mem_Join ''/home/u'' ''/Desktop'' = ''/home/u/Desktop''"
  "mem_Join ''/home/u'' ''/Downloads'' = ''/home/u/Downloads''"
  "mem_Join ''/home/u'' [] = ''/home/u''"
  by (simp_all add: mem_Join_def mem_Clean_def clean_step_def HasPrefix_def)

definition mem_os :: "(8 word list \<Rightarrow> 128 word) \<Rightarrow> memfs os" where
  "mem_os h =
     \<lparr>os_Stat = mem_Stat, os_Open = mem_Open, os_Remove = mem_Remove,
      os_RemoveAll = mem_RemoveAll, os_UserHomeDir = home,
      os_Getenv = (\<lambda>w k. if k = ''HOME'' then home w else []),
      exec_Command = mem_Command, filepath_Glob = mem_Glob, filepath_Match = mem_Match,
      filepath_Join = mem_Join, filepath_Tree = mem_Tree, time_Now = clock,
      md5_Sum = h, range_sizeMap = (\<lambda>m. m), range_hashMap = (\<lambda>m. m)\<rparr>"

definition mem_os0 :: "memfs os" where
  "mem_os0 = mem_os (\<lambda>bytes. 0)"

definition fresh :: "memfs \<Rightarrow> memfs state" where
  "fresh w = \<lparr>world = w, sudoMgr = \<lparr>HasSudo = False, LastAuth = 0, Timeout = 300000000000\<rparr>,
              trace = []\<rparr>"

definition file_info :: "string \<Rightarrow> nat \<Rightarrow> FileInfo" where
  "file_info name n = \<lparr>info_Name = name, info_Size = of_nat n, info_Mode = ModeRegular\<rparr>"

definition dir_info :: "string \<Rightarrow> FileInfo" where
  "dir_info name = \<lparr>info_Name = name, info_Size = 96, info_Mode = ModeDir\<rparr>"

definition link_info :: "string \<Rightarrow> nat \<Rightarrow> FileInfo" where
  "link_info name n = \<lparr>info_Name = name, info_Size = of_nat n, info_Mode = ModeSymlink\<rparr>"

definition zeros :: "nat \<Rightarrow> 8 word list" where
  "zeros n = replicate n 0"

definition mk_target :: "string \<Rightarrow> string \<Rightarrow> int64 \<Rightarrow> bool \<Rightarrow> bool \<Rightarrow> CleanupTarget" where
  "mk_target name path sz sel sudo =
     \<lparr>Name = name, Path = path, Description = [], Size = sz, Selected = sel,
      RequiresSudo = sudo, Category = [], IsCommand = False, Command = []\<rparr>"

lemmas mem_simps =
  mem_os_def mem_Stat_def mem_Lstat_def mem_Open_def mem_Tree_def mem_Remove_def
  mem_RemoveAll_def mem_Match_def mem_Glob_def mem_find_def mem_rm_def mem_Command_def
  mem_Join_home
  strip_slash_def bad_pattern_def file_info_def dir_info_def IsDir_def IsNotExist_def
  HasPrefix_def Contains_def NUL_def

lemmas call_simps =
  do_Remove_def do_RemoveAll_def do_Command_def progress_def authenticate_def EnsureSudo_def
  SudoRun_def

lemmas scan_simps =
  ScanDuplicates_def ExpandPath_def Walk_def scan_visit_def skipDirs_def map_get_def
  word_sless_alt FileHash_def zeros_def

lemmas clean_simps =
  cleanTarget_def calculateActualSize_def deletePath_def deleteSinglePath_def ExpandPath_def
  mk_target_def Let_def

text \<open>
  The file systems of the examples: two files of 2 MiB with the same content; two files of
  2 MiB and two of 3 MiB that all begin with the same 4096 bytes; a cache directory with
  one file that the user may not remove; a directory with a regular file and a symbolic
  link; three files with the same content, the same with one file that the user may not
  remove, and two files with the same content outside the home directory, one of which only
  \<open>sudo\<close> removes; three files of 100, 200 and 300 bytes; a cache directory with a
  subdirectory.
\<close>

definition twins_fs :: memfs where
  "twins_fs =
     \<lparr>root = Entry ''/'' (dir_info ''/'') None
        [Entry ''/home'' (dir_info ''home'') None
          [Entry ''/home/u'' (dir_info ''u'') None
            [Entry ''/home/u/Documents'' (dir_info ''Documents'') None
              [Entry ''/home/u/Documents/file1.bin'' (file_info ''file1.bin'' 2097152) None [],
               Entry ''/home/u/Documents/file2.bin'' (file_info ''file2.bin'' 2097152) None [],
               Entry ''/home/u/Documents/small.txt'' (file_info ''small.txt'' 5) None []]]]],
      contents = [(''/home/u/Documents/file1.bin'', zeros 2097152),
                  (''/home/u/Documents/file2.bin'', zeros 2097152),
                  (''/home/u/Documents/small.txt'', map of_char ''small'')],
      denied = [], sudo_ok = False, find_ok = True, home = ''/home/u'', clock = 0\<rparr>"

definition mixed_fs :: memfs where
  "mixed_fs =
     \<lparr>root = Entry ''/'' (dir_info ''/'') None
        [Entry ''/home'' (dir_info ''home'') None
          [Entry ''/home/u'' (dir_info ''u'') None
            [Entry ''/home/u/Documents'' (dir_info ''Documents'') None
              [Entry ''/home/u/Documents/a.bin'' (file_info ''a.bin'' 2097152) None [],
               Entry ''/home/u/Documents/b.bin'' (file_info ''b.bin'' 2097152) None [],
               Entry ''/home/u/Documents/c.bin'' (file_info ''c.bin'' 3145728) None [],
               Entry ''/home/u/Documents/d.bin'' (file_info ''d.bin'' 3145728) None []]]]],
      contents = [(''/home/u/Documents/a.bin'', zeros 2097152),
                  (''/home/u/Documents/b.bin'', zeros 2097152),
                  (''/home/u/Documents/c.bin'', zeros 3145728),
                  (''/home/u/Documents/d.bin'', zeros 3145728)],
      denied = [], sudo_ok = False, find_ok = True, home = ''/home/u'', clock = 0\<rparr>"

definition cache_fs :: memfs where
  "cache_fs =
     \<lparr>root = Entry ''/'' (dir_info ''/'') None
        [Entry ''/c'' (dir_info ''c'') None
          [Entry ''/c/a'' (file_info ''a'' 500) None [],
           Entry ''/c/b'' (file_info ''b'' 700) None []]],
      contents = [(''/c/a'', zeros 500), (''/c/b'', zeros 700)],
      denied = [''/c/b''], sudo_ok = False, find_ok = True, home = ''/home/u'', clock = 0\<rparr>"

definition link_fs :: memfs where
  "link_fs =
     \<lparr>root = Entry ''/'' (dir_info ''/'') None
        [Entry ''/c'' (dir_info ''c'') None
          [Entry ''/c/a'' (file_info ''a'' 5) None [],
           Entry ''/c/l'' (link_info ''l'' 10) None []]],
      contents = [(''/c/a'', map of_char ''hello'')],
      denied = [], sudo_ok = False, find_ok = True, home = ''/home/u'', clock = 0\<rparr>"

definition dup_fs :: memfs where
  "dup_fs =
     \<lparr>root = Entry ''/'' (dir_info ''/'') None
        [Entry ''/home'' (dir_info ''home'') None
          [Entry ''/home/u'' (dir_info ''u'') None
            [Entry ''/home/u/file1.txt'' (file_info ''file1.txt'' 17) None [],
             Entry ''/home/u/file2.txt'' (file_info ''file2.txt'' 17) None [],
             Entry ''/home/u/file3.txt'' (file_info ''file3.txt'' 17) None []]]],
      contents = [(''/home/u/file1.txt'', map of_char ''duplicate content''),
                  (''/home/u/file2.txt'', map of_char ''duplicate content''),
                  (''/home/u/file3.txt'', map of_char ''duplicate content'')],
      denied = [], sudo_ok = False, find_ok = True, home = ''/home/u'', clock = 0\<rparr>"

definition dup_groups :: "DuplicateGroup list" where
  "dup_groups = [\<lparr>Hash = ''abc123'', GroupSize = 17,
                  Files = [''/home/u/file1.txt'', ''/home/u/file2.txt'', ''/home/u/file3.txt'']\<rparr>]"

definition locked_fs :: memfs where
  "locked_fs = dup_fs\<lparr>denied := [''/home/u/file2.txt'']\<rparr>"

definition repeated_groups :: "DuplicateGroup list" where
  "repeated_groups = [\<lparr>Hash = ''abc123'', GroupSize = 17,
                       Files = [''/home/u/file1.txt'', ''/home/u/file1.txt'']\<rparr>]"

definition shared_fs :: memfs where
  "shared_fs =
     \<lparr>root = Entry ''/'' (dir_info ''/'') None
        [Entry ''/srv'' (dir_info ''srv'') None
          [Entry ''/srv/a.iso'' (file_info ''a.iso'' 17) None [],
           Entry ''/srv/b.iso'' (file_info ''b.iso'' 17) None []]],
      contents = [(''/srv/a.iso'', map of_char ''duplicate content''),
                  (''/srv/b.iso'', map of_char ''duplicate content'')],
      denied = [''/srv/b.iso''], sudo_ok = True, find_ok = True, home = ''/home/u'', clock = 7\<rparr>"

definition shared_groups :: "DuplicateGroup list" where
  "shared_groups = [\<lparr>Hash = ''abc123'', GroupSize = 17,
                     Files = [''/srv/a.iso'', ''/srv/b.iso'']\<rparr>]"





section \<open>The byte formatter\<close>

lemma div_1024_less: "(x::int) < 1024 * b \<Longrightarrow> x div 1024 < b"
  by linarith

lemma div_1024_ge: "1024 * (b::int) \<le> x \<Longrightarrow> b \<le> x div 1024"
  by linarith

lemma formatBytes_loop_mono: "exp \<le> snd (formatBytes_loop n d exp)"
proof (induction n d exp rule: formatBytes_loop.induct)
  case (1 n d exp)
  show ?case
  proof (cases "1024 \<le>s n")
    case True
    with 1 show ?thesis
      by (subst formatBytes_loop.simps) simp
  next
    case False
    then show ?thesis
      by (subst formatBytes_loop.simps) simp
  qed
qed

lemma formatBytes_loop_upper:
  "sint n < 1024 ^ Suc k \<Longrightarrow> snd (formatBytes_loop n d exp) \<le> exp + k"
proof (induction k arbitrary: n d exp)
  case 0
  then have "\<not> 1024 \<le>s n"
    by (simp add: word_sle_eq)
  then show ?case
    by (subst formatBytes_loop.simps) simp
next
  case (Suc k)
  show ?case
  proof (cases "1024 \<le>s n")
    case False
    then show ?thesis
      by (subst formatBytes_loop.simps) simp
  next
    case True
    have "sint n < 1024 * 1024 ^ Suc k"
      using Suc.prems by simp
    then have "sint (int64_div n 1024) < 1024 ^ Suc k"
      unfolding sint_int64_div_1024 [OF True] by (rule div_1024_less)
    from Suc.IH [OF this, of "d * 1024" "exp + 1"] True show ?thesis
      by (subst formatBytes_loop.simps) simp
  qed
qed

lemma formatBytes_loop_lower:
  "1024 ^ Suc k \<le> sint n \<Longrightarrow> exp + Suc k \<le> snd (formatBytes_loop n d exp)"
proof (induction k arbitrary: n d exp)
  case 0
  then have ge: "1024 \<le>s n"
    by (simp add: word_sle_eq)
  with formatBytes_loop_mono [of "exp + 1" "int64_div n 1024" "d * 1024"] show ?case
    by (subst formatBytes_loop.simps) simp
next
  case (Suc k)
  have "(1 :: int) \<le> 1024 ^ Suc k"
    by (rule one_le_power) simp
  with Suc.prems have ge: "1024 \<le>s n"
    by (simp add: word_sle_eq)
  have "1024 * 1024 ^ Suc k \<le> sint n"
    using Suc.prems by simp
  then have "1024 ^ Suc k \<le> sint (int64_div n 1024)"
    unfolding sint_int64_div_1024 [OF ge] by (rule div_1024_ge)
  from Suc.IH [OF this, of "exp + 1" "d * 1024"] ge show ?case
    by (subst formatBytes_loop.simps) simp
qed

lemma index_units_out: "4 \<le> e \<Longrightarrow> index units (int e) = Inl (IndexOutOfRange (int e) 4)"
  by (simp add: index_def units_def)

lemma index_units_in: "e \<le> 3 \<Longrightarrow> index units (int e) = Inr (units ! e)"
  by (simp add: index_def units_def)

text \<open>
  The formatter of package \<open>scanner\<close> returns a string exactly for the counts below
  1 PiB (\<open>1024 ^ 5 = 1125899906842624\<close>); from 1 PiB on it panics.
\<close>

lemma formatBytes_panics_iff:
  "(\<exists>p. formatBytes b = Inl p) \<longleftrightarrow> 1125899906842624 \<le> sint b"
proof (cases "b <s 1024")
  case True
  then show ?thesis
    by (simp add: formatBytes_def word_sless_alt)
next
  case False
  then have ge: "1024 \<le>s b"
    by (simp add: word_sless_alt word_sle_eq)
  obtain d e where loop: "formatBytes_loop (int64_div b 1024) 1024 0 = (d, e)"
    by (metis prod.exhaust)
  have res: "formatBytes b = index units (int e)"
    using False loop by (simp add: formatBytes_def)
  show ?thesis
  proof (cases "1125899906842624 \<le> sint b")
    case big: True
    then have "1024 * 1024 ^ Suc 3 \<le> sint b"
      by simp
    then have "1024 ^ Suc 3 \<le> sint (int64_div b 1024)"
      unfolding sint_int64_div_1024 [OF ge] by (rule div_1024_ge)
    from formatBytes_loop_lower [OF this, of 0 1024]
    have "4 \<le> e"
      unfolding loop by simp
    from index_units_out [OF this] res big show ?thesis
      by simp
  next
    case small: False
    then have "sint b < 1024 * 1024 ^ Suc 3"
      by simp
    then have "sint (int64_div b 1024) < 1024 ^ Suc 3"
      unfolding sint_int64_div_1024 [OF ge] by (rule div_1024_less)
    from formatBytes_loop_upper [OF this, of 1024 0]
    have "e \<le> 3"
      unfolding loop by simp
    from index_units_in [OF this] res small show ?thesis
      by simp
  qed
qed

text \<open>
  C7. The byte formatter maps 1023 to \<open>B\<close>, 1024 to \<open>1.0 KB\<close> and 1048576 to
  \<open>1.0 MB\<close>, and renders every count of at least 1024 in the largest unit with one
  decimal place. The formatter of package \<open>scanner\<close> returns the unit label alone: at
  these three counts \<open>B\<close>, \<open>KB\<close> and \<open>MB\<close>.
\<close>

theorem formatBytes_boundaries:
  "formatBytes 1023 = Inr ''B'' \<and> formatBytes 1024 = Inr ''KB'' \<and> formatBytes 1048576 = Inr ''MB''"
  by (simp add: formatBytes_def formatBytes_loop.simps int64_div_def signed_divide_int_def
      word_sle_eq word_sless_alt index_def units_def)

text \<open>
  C8. For every non-negative byte count, 1 PiB and above included, the unit index stays
  inside the unit table and the formatter returns a result. At 1 PiB the loop leaves
  \<open>exp = 4\<close>, the table has the entries 0 to 3, and the index expression panics.
\<close>

theorem formatBytes_PiB_panics:
  "formatBytes 1125899906842624 = Inl (IndexOutOfRange 4 4)"
  by (simp add: formatBytes_def formatBytes_loop.simps int64_div_def signed_divide_int_def
      word_sle_eq word_sless_alt index_def units_def)

section \<open>The duplicate scan\<close>

lemma reclaimable_append:
  "reclaimable (gs @ hs) = reclaimable gs + reclaimable hs"
  by (simp add: reclaimable_def)

lemma make_groups_total:
  "make_groups os w m (groups, tot) = (groups', tot') \<Longrightarrow>
   tot' - reclaimable groups' = tot - reclaimable groups"
proof (induction m arbitrary: groups tot)
  case Nil
  then show ?case by simp
next
  case (Cons e m)
  obtain hash paths where e: "e = (hash, paths)"
    by (cases e)
  show ?case
  proof (cases "length paths > 1")
    case False
    with Cons e show ?thesis by simp
  next
    case long: True
    show ?thesis
    proof (cases "os_Stat os w (hd paths)")
      case (Inl err)
      with Cons e long show ?thesis by simp
    next
      case (Inr info)
      let ?g = "\<lparr>Hash = hash, GroupSize = info_Size info, Files = paths\<rparr>"
      let ?t = "tot + info_Size info * of_nat (length paths - 1)"
      from Cons.prems e long Inr
      have "make_groups os w m (groups @ [?g], ?t) = (groups', tot')"
        by simp
      from Cons.IH [OF this]
      have "tot' - reclaimable groups' = ?t - reclaimable (groups @ [?g])" .
      moreover have "(of_nat (length paths - 1) :: int64) = of_nat (length paths) - 1"
        using long by (simp add: of_nat_diff)
      then have "reclaimable (groups @ [?g])
          = reclaimable groups + info_Size info * of_nat (length paths - 1)"
        by (simp add: reclaimable_def)
      ultimately show ?thesis
        by simp
    qed
  qed
qed

lemma make_groups_members:
  "make_groups os w m (groups, tot) = (groups', tot') \<Longrightarrow>
   \<forall>g \<in> set groups. 2 \<le> length (Files g) \<Longrightarrow>
   \<forall>g \<in> set groups'. 2 \<le> length (Files g)"
proof (induction m arbitrary: groups tot)
  case Nil
  then show ?case by simp
next
  case (Cons e m)
  obtain hash paths where e: "e = (hash, paths)"
    by (cases e)
  show ?case
  proof (cases "length paths > 1")
    case False
    with Cons e show ?thesis by simp
  next
    case long: True
    show ?thesis
    proof (cases "os_Stat os w (hd paths)")
      case (Inl err)
      with Cons e long show ?thesis by simp
    next
      case (Inr info)
      let ?g = "\<lparr>Hash = hash, GroupSize = info_Size info, Files = paths\<rparr>"
      from Cons.prems(1) e long Inr
      have run: "make_groups os w m (groups @ [?g],
          tot + info_Size info * of_nat (length paths - 1)) = (groups', tot')"
        by simp
      have "\<forall>g \<in> set (groups @ [?g]). 2 \<le> length (Files g)"
        using Cons.prems(2) long by auto
      from Cons.IH [OF run this] show ?thesis .
    qed
  qed
qed

lemma ScanDuplicates_reclaimable:
  "snd (fst (ScanDuplicates os w)) = reclaimable (fst (fst (ScanDuplicates os w)))"
proof -
  obtain groups tot progress where r: "ScanDuplicates os w = ((groups, tot), progress)"
    by (metis prod.exhaust)
  then obtain m where "make_groups os w m ([], 0) = (groups, tot)"
    by (auto simp: ScanDuplicates_def Let_def split: prod.splits)
  from make_groups_total [OF this] have "tot = reclaimable groups"
    by (simp add: reclaimable_def)
  with r show ?thesis by simp
qed

lemma sint_in_range: "- (2 ^ 63) \<le> k \<Longrightarrow> k < 2 ^ 63 \<Longrightarrow> sint (word_of_int k :: int64) = k"
  by (simp add: sint_sbintrunc' signed_take_bit_int_eq_self)

lemma sint_term_in_range:
  fixes s :: int64
  assumes "0 \<le> sint s" "1 \<le> n" "sint s * (int n - 1) < 2 ^ 63"
  shows "sint (s * (of_nat n - 1)) = sint s * (int n - 1)"
proof -
  have "s * (of_nat n - 1) = (word_of_int (sint s * (int n - 1)) :: int64)"
    by simp
  moreover have "0 \<le> sint s * (int n - 1)"
    using assms by simp
  ultimately show ?thesis
    using assms(3) sint_in_range [of "sint s * (int n - 1)"] by simp
qed

lemma sint_add_in_range:
  fixes a b :: int64
  assumes "0 \<le> sint a" "0 \<le> sint b" "sint a + sint b < 2 ^ 63"
  shows "sint (a + b) = sint a + sint b"
proof -
  have "a + b = (word_of_int (sint a + sint b) :: int64)"
    by simp
  then show ?thesis
    using assms sint_in_range [of "sint a + sint b"] by simp
qed

lemma term_nonneg: "0 \<le> (a::int) \<Longrightarrow> 1 \<le> n \<Longrightarrow> 0 \<le> a * (int n - 1)"
  by (rule mult_nonneg_nonneg) simp_all

lemma reclaimable_int_nonneg:
  "\<forall>g \<in> set groups. 0 \<le> sint (GroupSize g) \<and> 1 \<le> length (Files g) \<Longrightarrow>
   0 \<le> reclaimable_int groups"
  by (induction groups) (simp_all add: reclaimable_int_def term_nonneg)

lemma reclaimable_sint:
  "\<forall>g \<in> set groups. 0 \<le> sint (GroupSize g) \<and> 1 \<le> length (Files g) \<Longrightarrow>
   reclaimable_int groups < 2 ^ 63 \<Longrightarrow>
   sint (reclaimable groups) = reclaimable_int groups"
proof (induction groups)
  case Nil
  then show ?case
    by (simp add: reclaimable_def reclaimable_int_def)
next
  case (Cons g gs)
  let ?t = "sint (GroupSize g) * (int (length (Files g)) - 1)"
  have g: "0 \<le> sint (GroupSize g)" "1 \<le> length (Files g)"
    and gs: "\<forall>g \<in> set gs. 0 \<le> sint (GroupSize g) \<and> 1 \<le> length (Files g)"
    using Cons.prems(1) by simp_all
  have t0: "0 \<le> ?t"
    using g by (rule term_nonneg)
  have r0: "0 \<le> reclaimable_int gs"
    using gs by (rule reclaimable_int_nonneg)
  have sum: "?t + reclaimable_int gs < 2 ^ 63"
    using Cons.prems(2) by (simp add: reclaimable_int_def)
  have t: "sint (GroupSize g * (of_nat (length (Files g)) - 1)) = ?t"
    using g t0 r0 sum by (intro sint_term_in_range) simp_all
  have r: "sint (reclaimable gs) = reclaimable_int gs"
    using gs r0 t0 sum by (intro Cons.IH) simp_all
  have "sint (GroupSize g * (of_nat (length (Files g)) - 1) + reclaimable gs) = ?t + reclaimable_int gs"
    using t r t0 r0 sum sint_add_in_range [of "GroupSize g * (of_nat (length (Files g)) - 1)" "reclaimable gs"]
    by simp
  then show ?case
    by (simp add: reclaimable_def reclaimable_int_def)
qed

text \<open>
Every group of the scan has at least two member paths.
\<close>

lemma ScanDuplicates_members:
  "g \<in> set (fst (fst (ScanDuplicates os w))) \<Longrightarrow> 2 \<le> length (Files g)"
proof -
  assume g: "g \<in> set (fst (fst (ScanDuplicates os w)))"
  obtain groups tot progress where r: "ScanDuplicates os w = ((groups, tot), progress)"
    by (metis prod.exhaust)
  then obtain m where "make_groups os w m ([], 0) = (groups, tot)"
    by (auto simp: ScanDuplicates_def Let_def split: prod.splits)
  from make_groups_members [OF this] have "\<forall>g \<in> set groups. 2 \<le> length (Files g)"
    by simp
  with r g show ?thesis by simp
qed

lemma ScanDuplicates_total_integer:
  assumes "\<forall>g \<in> set (fst (fst (ScanDuplicates os w))). 0 \<le> sint (GroupSize g)"
    and "reclaimable_int (fst (fst (ScanDuplicates os w))) < 2 ^ 63"
  shows "sint (snd (fst (ScanDuplicates os w))) = reclaimable_int (fst (fst (ScanDuplicates os w)))"
proof -
  have "\<forall>g \<in> set (fst (fst (ScanDuplicates os w))). 0 \<le> sint (GroupSize g) \<and> 1 \<le> length (Files g)"
    using assms(1) ScanDuplicates_members [of _ os w] by fastforce
  from reclaimable_sint [OF this assms(2)] show ?thesis
    by (simp add: ScanDuplicates_reclaimable)
qed

lemma hex_digest_nonempty: "hex_digest d \<noteq> []"
  by (simp add: hex_digest_def hex_byte_def upt_rec)

lemma twins_example:
  "fst (ScanDuplicates (mem_os h) twins_fs) =
     ([\<lparr>Hash = hex_digest (h (zeros 4096)), GroupSize = 2097152,
        Files = [''/home/u/Documents/file1.bin'', ''/home/u/Documents/file2.bin'']\<rparr>], 2097152)"
  by (simp add: ScanDuplicates_def mem_os_def twins_fs_def ExpandPath_def HasPrefix_def mem_Join_home
    mem_Stat_def mem_Lstat_def strip_slash_def dir_info_def file_info_def IsNotExist_def
    Walk_def mem_Tree_def scan_visit_def IsDir_def skipDirs_def map_get_def word_sless_alt
    FileHash_def mem_Open_def zeros_def hex_digest_nonempty)

text \<open>
  C1. Every group of the duplicate scan has at least two member paths, and the size on
  disk of every member equals the group's \<open>Size\<close>. The first half is
  \<open>ScanDuplicates_members\<close>. The second half fails where files of different sizes begin
  with the same 4096 bytes: with two files of 2 MiB and two of 3 MiB, whatever the hash
  function \<open>h\<close>, the scan returns one group of the four paths with size 2 MiB, and the
  third member has 3 MiB.
\<close>

theorem ScanDuplicates_mixed_sizes:
  "fst (ScanDuplicates (mem_os h) mixed_fs) =
     ([\<lparr>Hash = hex_digest (h (zeros 4096)), GroupSize = 2097152,
        Files = [''/home/u/Documents/a.bin'', ''/home/u/Documents/b.bin'',
                 ''/home/u/Documents/c.bin'', ''/home/u/Documents/d.bin'']\<rparr>], 6291456) \<and>
   os_Stat (mem_os h) mixed_fs ''/home/u/Documents/c.bin'' = Inr (file_info ''c.bin'' 3145728) \<and>
   info_Size (file_info ''c.bin'' 3145728) \<noteq> 2097152"
  by (simp add: mixed_fs_def mem_simps scan_simps hex_digest_nonempty)

text \<open>
  C2. The total that the duplicate scan returns is the sum over the groups it returns of
  size times (member count - 1): in \<open>int64\<close> arithmetic always, and over the integers
  whenever the sizes are not negative and the sum is below \<open>2 ^ 63\<close>; two files of
  2 MiB with the same content give one group and the total 2 MiB, whatever the hash
  function \<open>h\<close>.
\<close>

theorem ScanDuplicates_total:
  "snd (fst (ScanDuplicates os w)) = reclaimable (fst (fst (ScanDuplicates os w))) \<and>
   ((\<forall>g \<in> set (fst (fst (ScanDuplicates os w))). 0 \<le> sint (GroupSize g)) \<and>
    reclaimable_int (fst (fst (ScanDuplicates os w))) < 2 ^ 63 \<longrightarrow>
    sint (snd (fst (ScanDuplicates os w))) = reclaimable_int (fst (fst (ScanDuplicates os w)))) \<and>
   fst (ScanDuplicates (mem_os h) twins_fs) =
     ([\<lparr>Hash = hex_digest (h (zeros 4096)), GroupSize = 2097152,
        Files = [''/home/u/Documents/file1.bin'', ''/home/u/Documents/file2.bin'']\<rparr>], 2097152)"
  using ScanDuplicates_reclaimable [of os w] ScanDuplicates_total_integer [of os w]
    twins_example [of h]
  by simp

theorem ScanDuplicates_total_witness:
  "fst (ScanDuplicates mem_os0 twins_fs) =
     ([\<lparr>Hash = hex_digest 0, GroupSize = 2097152,
        Files = [''/home/u/Documents/file1.bin'', ''/home/u/Documents/file2.bin'']\<rparr>], 2097152) \<and>
   reclaimable_int (fst (fst (ScanDuplicates mem_os0 twins_fs))) = 2097152 \<and>
   sint (snd (fst (ScanDuplicates mem_os0 twins_fs))) = 2097152"
proof -
  have ex: "fst (ScanDuplicates mem_os0 twins_fs) =
     ([\<lparr>Hash = hex_digest 0, GroupSize = 2097152,
        Files = [''/home/u/Documents/file1.bin'', ''/home/u/Documents/file2.bin'']\<rparr>], 2097152)"
    using twins_example [of "\<lambda>bytes. 0"] by (simp add: mem_os0_def)
  then have int: "reclaimable_int (fst (fst (ScanDuplicates mem_os0 twins_fs))) = 2097152"
    by (simp add: reclaimable_int_def)
  have nonneg: "\<forall>g \<in> set (fst (fst (ScanDuplicates mem_os0 twins_fs))). 0 \<le> sint (GroupSize g)"
    using ex by simp
  from ScanDuplicates_total [of mem_os0 twins_fs "\<lambda>bytes. 0"]
  have "(\<forall>g \<in> set (fst (fst (ScanDuplicates mem_os0 twins_fs))). 0 \<le> sint (GroupSize g)) \<and>
      reclaimable_int (fst (fst (ScanDuplicates mem_os0 twins_fs))) < 2 ^ 63 \<longrightarrow>
      sint (snd (fst (ScanDuplicates mem_os0 twins_fs)))
        = reclaimable_int (fst (fst (ScanDuplicates mem_os0 twins_fs)))"
    by blast
  with nonneg int have "sint (snd (fst (ScanDuplicates mem_os0 twins_fs))) = 2097152"
    by simp
  with ex int show ?thesis
    by simp
qed

section \<open>Deleting a wildcard path\<close>








section \<open>The calls a function makes\<close>

lemma extends_refl: "extends s s"
  by (simp add: extends_def)

lemma extends_append: "extends s s' \<Longrightarrow> trace s' = trace s @ new_events s s'"
  by (metis append_take_drop_id extends_def new_events_def)

lemma extendsI: "trace s' = trace s @ evs \<Longrightarrow> extends s s' \<and> new_events s s' = evs"
  by (simp add: extends_def new_events_def)

lemma extends_trans:
  "extends s s1 \<Longrightarrow> extends s1 s2 \<Longrightarrow>
   extends s s2 \<and> new_events s s2 = new_events s s1 @ new_events s1 s2"
proof -
  assume a: "extends s s1" and b: "extends s1 s2"
  have "trace s2 = trace s @ (new_events s s1 @ new_events s1 s2)"
    using extends_append [OF a] extends_append [OF b] by simp
  then show ?thesis
    by (rule extendsI)
qed

lemma do_Command_events:
  "do_Command os cap argv s = (res, s') \<Longrightarrow> extends s s' \<and> new_events s s' = [EvCommand argv]"
  by (auto simp: do_Command_def split: prod.splits intro!: extendsI [THEN conjunct1] extendsI [THEN conjunct2])

lemma do_Remove_events:
  "do_Remove os p s = (r, s') \<Longrightarrow> extends s s' \<and> new_events s s' = [EvRemove p]"
  by (auto simp: do_Remove_def split: prod.splits
      intro!: extendsI [THEN conjunct1] extendsI [THEN conjunct2])

lemma progress_events:
  "extends s (progress m s) \<and> new_events s (progress m s) = [EvProgress m]"
  by (simp add: progress_def extends_def new_events_def)

lemma authenticate_events:
  assumes "authenticate os s = (r, s')"
  shows "extends s s' \<and> new_events s s' = [EvCommand [''sudo'', ''-v'']]"
proof -
  obtain res s1 where c: "do_Command os Run [''sudo'', ''-v''] s = (res, s1)"
    by (metis prod.exhaust)
  with assms have "trace s' = trace s1"
    by (auto simp: authenticate_def split: prod.splits if_splits)
  moreover from do_Command_events [OF c] have "trace s1 = trace s @ [EvCommand [''sudo'', ''-v'']]"
    using extends_append by fastforce
  ultimately show ?thesis
    using extendsI by fastforce
qed

lemma EnsureSudo_events:
  assumes "EnsureSudo os s = (r, s')"
  shows "extends s s' \<and> list_all sudo_check (new_events s s')"
proof (cases "HasSudo (sudoMgr s) \<and> time_Now os (world s) - LastAuth (sudoMgr s) < Timeout (sudoMgr s)")
  case False
  with assms have "authenticate os s = (r, s')"
    by (simp add: EnsureSudo_def)
  from authenticate_events [OF this] show ?thesis
    by (simp add: sudo_check_def)
next
  case True
  obtain err out s1 where c: "do_Command os Run [''sudo'', ''-n'', ''true''] s = ((err, out), s1)"
    by (metis prod.exhaust)
  from do_Command_events [OF c]
  have e1: "extends s s1" and n1: "new_events s s1 = [EvCommand [''sudo'', ''-n'', ''true'']]"
    by simp_all
  show ?thesis
  proof (cases err)
    case None
    with assms True c have "trace s' = trace s1"
      by (auto simp: EnsureSudo_def)
    with extends_append [OF e1] n1 have "trace s' = trace s @ [EvCommand [''sudo'', ''-n'', ''true'']]"
      by simp
    from extendsI [OF this] show ?thesis
      by (simp add: sudo_check_def)
  next
    case (Some e)
    with assms True c have "authenticate os s1 = (r, s')"
      by (simp add: EnsureSudo_def)
    from authenticate_events [OF this] extends_trans [OF e1] n1 show ?thesis
      by (simp add: sudo_check_def)
  qed
qed

lemma removals_append: "removals (xs @ ys) = removals xs @ removals ys"
  by (simp add: removals_def)

lemma messages_append: "messages (xs @ ys) = messages xs @ messages ys"
  by (simp add: messages_def)

lemma removals_sudo_checks: "list_all sudo_check evs \<Longrightarrow> removals evs = [] \<and> messages evs = []"
  by (induction evs) (auto simp: removals_def messages_def removal_target_def sudo_check_def)

lemma SudoRun_rm_events:
  assumes "SudoRun os [''rm'', flag, file] s = (r, s')"
  shows "extends s s' \<and> set (removals (new_events s s')) \<subseteq> {file} \<and> messages (new_events s s') = []"
proof -
  obtain e s1 where es: "EnsureSudo os s = (e, s1)"
    by (metis prod.exhaust)
  from EnsureSudo_events [OF es] have e1: "extends s s1" and c1: "list_all sudo_check (new_events s s1)"
    by simp_all
  show ?thesis
  proof (cases e)
    case (Some err)
    with assms es have "s' = s1"
      by (simp add: SudoRun_def)
    with e1 removals_sudo_checks [OF c1] show ?thesis
      by simp
  next
    case None
    obtain res s2 where c: "do_Command os Run [''sudo'', ''rm'', flag, file] s1 = (res, s2)"
      by (metis prod.exhaust)
    with assms es None have "s' = s2"
      by (auto simp: SudoRun_def split: prod.splits)
    with do_Command_events [OF c] extends_trans [OF e1, of s2] removals_sudo_checks [OF c1]
    show ?thesis
      by (simp add: removals_append messages_append)
        (simp add: removals_def messages_def removal_target_def)
  qed
qed

lemma DeleteFiles_remove_events:
  assumes "DeleteFiles_remove os needsSudo file s = (r, s')"
  shows "extends s s' \<and> set (removals (new_events s s')) \<subseteq> {file} \<and> messages (new_events s s') = []"
proof -
  obtain e s1 where rm: "do_Remove os file s = (e, s1)"
    by (metis prod.exhaust)
  from do_Remove_events [OF rm] have e1: "extends s s1" and n1: "new_events s s1 = [EvRemove file]"
    by simp_all
  have one: "set (removals (new_events s s1)) \<subseteq> {file} \<and> messages (new_events s s1) = []"
    by (simp add: n1 removals_def messages_def removal_target_def)
  show ?thesis
  proof (cases "needsSudo \<and> e \<noteq> None")
    case False
    with assms rm have "s' = s1"
      by (cases needsSudo) (auto simp: DeleteFiles_remove_def)
    with e1 one show ?thesis
      by simp
  next
    case True
    with assms rm have "SudoRun os [''rm'', ''-f'', file] s1 = (r, s')"
      by (cases needsSudo) (auto simp: DeleteFiles_remove_def)
    from SudoRun_rm_events [OF this] extends_trans [OF e1, of s'] one show ?thesis
      by (auto simp: removals_append messages_append)
  qed
qed

lemma DeleteFiles_loop_events:
  "DeleteFiles_loop os files tot s = (tot', s') \<Longrightarrow>
   extends s s' \<and> set (removals (new_events s s')) \<subseteq> set files \<and>
   messages (new_events s s') = map (\<lambda>f. ''Deleting: '' @ ShortenPath f 40) files"
proof (induction files arbitrary: tot s)
  case Nil
  then show ?case
    by (simp add: extends_refl new_events_def removals_def messages_def)
next
  case (Cons f files)
  let ?s0 = "progress (''Deleting: '' @ ShortenPath f 40) s"
  have p: "extends s ?s0" "new_events s ?s0 = [EvProgress (''Deleting: '' @ ShortenPath f 40)]"
    using progress_events by blast+
  have p': "removals (new_events s ?s0) = []"
    "messages (new_events s ?s0) = [''Deleting: '' @ ShortenPath f 40]"
    unfolding p(2) by (simp_all add: removals_def messages_def removal_target_def)
  show ?case
  proof (cases "os_Stat os (world ?s0) f")
    case (Inl err)
    with Cons.prems have "DeleteFiles_loop os files tot ?s0 = (tot', s')"
      by (simp add: Let_def)
    from Cons.IH [OF this] extends_trans [OF p(1), of s'] p' show ?thesis
      by (auto simp: removals_append messages_append)
  next
    case (Inr info)
    let ?needs = "\<not> HasPrefix f (os_Getenv os (world ?s0) ''HOME'')"
    obtain e s2 where rm: "DeleteFiles_remove os ?needs f ?s0 = (e, s2)"
      by (metis prod.exhaust)
    from DeleteFiles_remove_events [OF rm]
    have r: "extends ?s0 s2" "set (removals (new_events ?s0 s2)) \<subseteq> {f}"
      "messages (new_events ?s0 s2) = []"
      by simp_all
    from extends_trans [OF p(1) r(1)] p' r
    have m: "extends s s2" "set (removals (new_events s s2)) \<subseteq> {f}"
      "messages (new_events s s2) = [''Deleting: '' @ ShortenPath f 40]"
      by (simp_all add: removals_append messages_append)
    obtain tot1 where "DeleteFiles_loop os files tot1 s2 = (tot', s')"
      using Cons.prems Inr rm by (auto simp: Let_def split: if_splits)
    from Cons.IH [OF this] extends_trans [OF m(1), of s'] m show ?thesis
      by (auto simp: removals_append messages_append)
  qed
qed

section \<open>Cleaning targets\<close>

text \<open>
  C4. When a selected target requires elevated privileges and \<open>EnsureSudo\<close> fails,
  \<open>CleanTargets\<close> returns at once: no result, total 0, the targets as they were, and
  the state that the failed \<open>EnsureSudo\<close> left, in which the only calls made are the
  credential checks of \<open>sudo\<close>.
\<close>

theorem CleanTargets_sudo_denied:
  assumes needs: "list_ex (\<lambda>t. Selected t \<and> RequiresSudo t) targets"
    and denied: "EnsureSudo os s = (Some err, s1)"
  shows "CleanTargets os targets s = (([], 0), targets, s1) \<and>
         extends s s1 \<and> list_all sudo_check (new_events s s1)"
  using needs denied EnsureSudo_events [OF denied]
  by (simp add: CleanTargets_def)

lemma cache_sudo_denied:
  "EnsureSudo mem_os0 (fresh cache_fs)
     = (Some (ErrText ''sudo authentication failed''),
        (fresh cache_fs)\<lparr>trace := [EvCommand [''sudo'', ''-v'']]\<rparr>)"
  by (simp add: mem_os0_def fresh_def cache_fs_def mem_simps call_simps)

theorem CleanTargets_sudo_denied_witness:
  "CleanTargets mem_os0 [mk_target ''System Logs'' ''/c/*'' 1200 True True] (fresh cache_fs)
     = (([], 0), [mk_target ''System Logs'' ''/c/*'' 1200 True True],
        (fresh cache_fs)\<lparr>trace := [EvCommand [''sudo'', ''-v'']]\<rparr>) \<and>
   world ((fresh cache_fs)\<lparr>trace := [EvCommand [''sudo'', ''-v'']]\<rparr>) = cache_fs"
proof -
  have needs: "list_ex (\<lambda>t. Selected t \<and> RequiresSudo t)
      [mk_target ''System Logs'' ''/c/*'' 1200 True True]"
    by (simp add: mk_target_def)
  from CleanTargets_sudo_denied [OF needs cache_sudo_denied] show ?thesis
    by (simp add: fresh_def)
qed

text \<open>
  C6, as amended. For a path without \<open>*\<close> that \<open>os.Stat\<close> reports as not existing:
  \<open>deleteSinglePath\<close> and \<open>deletePath\<close> succeed and leave the state as it was.
  \<open>cleanTarget\<close> of a path-based target with this path leaves the state as it was too,
  and its result has zero freed bytes; the result has no error when \<open>filepath.Glob\<close>
  accepts the path as a pattern, and the error \<open>invalid path pattern\<close> when
  \<open>filepath.Glob\<close> rejects it.
\<close>

theorem delete_absent_path:
  assumes concrete: "\<not> Contains path (CHR ''*'')"
    and absent: "os_Stat os (world s) path = Inl err" "IsNotExist err"
  shows "deleteSinglePath os path useSudo s = (None, s) \<and>
         deletePath os path useSudo s = (None, s) \<and>
         (ExpandPath os (world s) (Path target) = path \<and>
          \<not> (IsCommand target \<and> Command target \<noteq> []) \<longrightarrow>
            cleanTarget os target s =
              (\<lparr>Target = Name target, Requested = Size target, Actual = 0,
                Error = (case filepath_Glob os (world s) path of
                           Inl e \<Rightarrow> Some (ErrWrap ''invalid path pattern'' e)
                         | Inr matches \<Rightarrow> None),
                Timestamp = time_Now os (world s)\<rparr>, s))"
proof -
  have single: "deleteSinglePath os path u s = (None, s)" for u
    using absent by (simp add: deleteSinglePath_def)
  have del: "deletePath os path u s = (None, s)" for u
    using concrete single by (simp add: deletePath_def)
  have size: "calculateActualSize os path s = (0, s)"
    using concrete absent by (simp add: calculateActualSize_def)
  have "cleanTarget os target s =
      (\<lparr>Target = Name target, Requested = Size target, Actual = 0,
        Error = (case filepath_Glob os (world s) path of
                   Inl e \<Rightarrow> Some (ErrWrap ''invalid path pattern'' e)
                 | Inr matches \<Rightarrow> None),
        Timestamp = time_Now os (world s)\<rparr>, s)"
    if "ExpandPath os (world s) (Path target) = path"
      "\<not> (IsCommand target \<and> Command target \<noteq> [])"
    using that del [of "RequiresSudo target"] size
    by (cases "filepath_Glob os (world s) path") (auto simp: cleanTarget_def Let_def)
  with single del show ?thesis
    by blast
qed

theorem delete_absent_path_witness:
  "deleteSinglePath mem_os0 ''/c/gone'' False (fresh cache_fs) = (None, fresh cache_fs) \<and>
   deletePath mem_os0 ''/c/gone'' False (fresh cache_fs) = (None, fresh cache_fs) \<and>
   cleanTarget mem_os0 (mk_target ''Gone'' ''/c/gone'' 0 True False) (fresh cache_fs)
     = (\<lparr>Target = ''Gone'', Requested = 0, Actual = 0, Error = None, Timestamp = 0\<rparr>,
        fresh cache_fs)"
proof -
  let ?t = "mk_target ''Gone'' ''/c/gone'' 0 True False"
  have path: "ExpandPath mem_os0 (world (fresh cache_fs)) (Path ?t) = ''/c/gone''"
    by (simp add: ExpandPath_def mk_target_def HasPrefix_def)
  have concrete: "\<not> Contains ''/c/gone'' (CHR ''*'')"
    by (simp add: Contains_def)
  have absent: "os_Stat mem_os0 (world (fresh cache_fs)) ''/c/gone'' = Inl ErrNotExist"
    by (simp add: mem_os0_def fresh_def cache_fs_def mem_simps)
  have notexist: "IsNotExist ErrNotExist"
    by (simp add: IsNotExist_def)
  have glob: "filepath_Glob mem_os0 (world (fresh cache_fs)) ''/c/gone'' = Inr []"
    by (simp add: mem_os0_def fresh_def cache_fs_def mem_simps)
  have pathbased: "\<not> (IsCommand ?t \<and> Command ?t \<noteq> [])"
    by (simp add: mk_target_def)
  have now: "time_Now mem_os0 (world (fresh cache_fs)) = 0"
    by (simp add: mem_os0_def fresh_def cache_fs_def mem_simps)
  from delete_absent_path [OF concrete absent notexist, where useSudo = False
      and target = ?t] path pathbased glob now
  show ?thesis
    by (simp add: mk_target_def)
qed

text \<open>
  C6 as stated promises a result with no error for every path without \<open>*\<close> that does not
  exist. The path \<open>/c/[x\<close> has none and does not exist; \<open>deletePath\<close> succeeds on it,
  and the result of \<open>cleanTarget\<close> carries the error \<open>invalid path pattern\<close>, with the
  state as it was.
\<close>

theorem cleanTarget_malformed_path:
  "\<not> Contains ''/c/[x'' (CHR ''*'') \<and>
   os_Stat mem_os0 (world (fresh cache_fs)) ''/c/[x'' = Inl ErrNotExist \<and>
   deletePath mem_os0 ''/c/[x'' False (fresh cache_fs) = (None, fresh cache_fs) \<and>
   cleanTarget mem_os0 (mk_target ''Odd'' ''/c/[x'' 0 True False) (fresh cache_fs)
     = (\<lparr>Target = ''Odd'', Requested = 0, Actual = 0,
         Error = Some (ErrWrap ''invalid path pattern'' ErrBadPattern), Timestamp = 0\<rparr>,
        fresh cache_fs)"
  by (simp add: mem_os0_def fresh_def cache_fs_def mem_simps clean_simps)











section \<open>Measuring a wildcard pattern\<close>

text \<open>
  C5. For every pattern and file system, the listing by \<open>find\<close> and the walk select the
  same files and give the same total. \<open>find -type f\<close> lists regular files only; the walk
  counts every entry that is no directory. In a directory with a regular file of 5 bytes
  and a symbolic link of 10 bytes, the first gives 5 and the second 15, and
  \<open>calculateActualSize\<close> itself gives 15 when \<open>find\<close> cannot run.
\<close>

theorem strategies_disagree_on_symlink:
  "fst (calculateActualSize mem_os0 ''/c/*'' (fresh link_fs)) = 5 \<and>
   walkCalculateSize mem_os0 link_fs ''/c/'' ''/c/*'' = 15 \<and>
   fst (calculateActualSize mem_os0 ''/c/*'' (fresh (link_fs\<lparr>find_ok := False\<rparr>))) = 15"
  by (simp add: calculateActualSize_def walkCalculateSize_def walkCalculateSize_visit_def
      Walk_def mem_os0_def fresh_def link_fs_def link_info_def mem_simps call_simps)

section \<open>Deleting duplicates\<close>

lemma map_nth_from_one: "map (\<lambda>j. xs ! j) [Suc 0..<length xs] = tl xs"
  by (metis map_nth map_tl tl_upt)

lemma filesToDelete_doomed:
  "\<forall>(i, sel) \<in> set selected. sel \<longrightarrow> 0 \<le> i \<Longrightarrow>
   filesToDelete groups selected acc = Inr (acc @ doomed groups selected)"
proof (induction selected arbitrary: acc)
  case Nil
  then show ?case by (simp add: doomed_def)
next
  case (Cons e selected)
  obtain i sel where e: "e = (i, sel)"
    by (cases e)
  from Cons.prems have rest: "\<forall>(i, sel) \<in> set selected. sel \<longrightarrow> 0 \<le> i"
    by simp
  show ?case
  proof (cases "sel \<and> i < int (length groups)")
    case False
    with e Cons.IH [OF rest] show ?thesis
      by (auto simp: doomed_def)
  next
    case True
    with Cons.prems e have "0 \<le> i"
      by simp
    with True e Cons.IH [OF rest] show ?thesis
      by (simp add: doomed_def index_def map_nth_from_one)
  qed
qed

lemma nth_subset_concat: "k < length xss \<Longrightarrow> set (xss ! k) \<subseteq> set (concat xss)"
  by (induction xss arbitrary: k) (auto simp: nth_Cons split: nat.splits)

lemma distinct_concat_nth_disjoint:
  "distinct (concat xss) \<Longrightarrow> i < length xss \<Longrightarrow> j < length xss \<Longrightarrow> i \<noteq> j \<Longrightarrow>
   set (xss ! i) \<inter> set (xss ! j) = {}"
proof (induction xss arbitrary: i j)
  case Nil
  then show ?case by simp
next
  case (Cons xs xss)
  from Cons.prems(1) have d: "distinct (concat xss)" and disj: "set xs \<inter> set (concat xss) = {}"
    by auto
  show ?case
  proof (cases i)
    case 0
    with Cons.prems obtain j' where j: "j = Suc j'" "j' < length xss"
      by (cases j) auto
    with nth_subset_concat [of j' xss] disj 0 show ?thesis
      by auto
  next
    case (Suc i')
    show ?thesis
    proof (cases j)
      case 0
      with nth_subset_concat [of i' xss] disj Suc Cons.prems show ?thesis
        by auto
    next
      case (Suc j')
      with \<open>i = Suc i'\<close> Cons.prems Cons.IH [OF d, of i' j'] show ?thesis
        by simp
    qed
  qed
qed

lemma distinct_concat_nth: "distinct (concat xss) \<Longrightarrow> k < length xss \<Longrightarrow> distinct (xss ! k)"
  by (induction xss arbitrary: k) (auto simp: nth_Cons split: nat.splits)

lemma distinct_hd_notin_tl: "distinct xs \<Longrightarrow> xs \<noteq> [] \<Longrightarrow> hd xs \<notin> set (tl xs)"
  by (metis distinct.simps(2) list.collapse)

lemma doomed_member:
  "p \<in> set (doomed groups selected) \<Longrightarrow>
   \<exists>i. (int i, True) \<in> set selected \<and> i < length groups \<and> p \<in> set (tl (Files (groups ! i)))"
proof -
  assume "p \<in> set (doomed groups selected)"
  then obtain i sel where m: "(i, sel) \<in> set selected" "sel" "0 \<le> i" "i < int (length groups)"
      "p \<in> set (tl (Files (groups ! nat i)))"
    by (auto simp: doomed_def split: if_splits)
  then have "(int (nat i), True) \<in> set selected \<and> nat i < length groups"
    by simp
  with m(5) show ?thesis
    by blast
qed

lemma first_not_doomed:
  assumes dist: "distinct (concat (map Files groups))"
    and j: "j < length groups" and ne: "Files (groups ! j) \<noteq> []"
  shows "hd (Files (groups ! j)) \<notin> set (doomed groups selected)"
proof
  assume "hd (Files (groups ! j)) \<in> set (doomed groups selected)"
  from doomed_member [OF this] obtain i where
    i: "i < length groups" "hd (Files (groups ! j)) \<in> set (tl (Files (groups ! i)))"
    by blast
  show False
  proof (cases "i = j")
    case True
    have "distinct (Files (groups ! j))"
      using distinct_concat_nth [OF dist, of j] j by simp
    from distinct_hd_notin_tl [OF this ne] i(2) True show False
      by simp
  next
    case False
    have "set (map Files groups ! i) \<inter> set (map Files groups ! j) = {}"
      using distinct_concat_nth_disjoint [OF dist, of i j] i(1) j False by simp
    moreover have "hd (Files (groups ! j)) \<in> set (Files (groups ! j))"
      using ne by simp
    moreover have "hd (Files (groups ! j)) \<in> set (Files (groups ! i))"
      using i(2) by (cases "Files (groups ! i)") auto
    ultimately show False
      using i(1) j by auto
  qed
qed

lemma unselected_not_doomed:
  assumes dist: "distinct (concat (map Files groups))"
    and j: "j < length groups" and unsel: "(int j, True) \<notin> set selected"
  shows "set (Files (groups ! j)) \<inter> set (doomed groups selected) = {}"
proof (rule ccontr)
  assume "set (Files (groups ! j)) \<inter> set (doomed groups selected) \<noteq> {}"
  then obtain p where p: "p \<in> set (Files (groups ! j))" "p \<in> set (doomed groups selected)"
    by blast
  from doomed_member [OF p(2)] obtain i where
    i: "(int i, True) \<in> set selected" "i < length groups" "p \<in> set (tl (Files (groups ! i)))"
    by blast
  with unsel have "i \<noteq> j"
    by auto
  then have "set (map Files groups ! i) \<inter> set (map Files groups ! j) = {}"
    using distinct_concat_nth_disjoint [OF dist, of i j] i(2) j by simp
  moreover have "p \<in> set (Files (groups ! i))"
    using i(3) by (cases "Files (groups ! i)") auto
  ultimately show False
    using p(1) i(2) j by auto
qed

text \<open>
  The loop of \<open>DeleteFiles\<close> deletes its files one after the other as \<open>delete_file\<close>
  says.
\<close>

lemma DeleteFiles_loop_step:
  "\<exists>tot'. DeleteFiles_loop os (f # fs) tot s = DeleteFiles_loop os fs tot' (delete_file os f s)"
  by (auto simp: delete_file_def DeleteFiles_remove_def SudoRun_def do_Remove_def do_Command_def
      progress_def Let_def split: sum.splits prod.splits option.splits)

lemma DeleteFiles_loop_fold:
  "snd (DeleteFiles_loop os fs tot s) = foldl (\<lambda>a f. delete_file os f a) s fs"
proof (induction fs arbitrary: tot s)
  case Nil
  then show ?case by simp
next
  case (Cons f fs)
  obtain tot' where
    "DeleteFiles_loop os (f # fs) tot s = DeleteFiles_loop os fs tot' (delete_file os f s)"
    using DeleteFiles_loop_step by blast
  with Cons.IH [of tot' "delete_file os f s"] show ?case
    by simp
qed

text \<open>
  A file that \<open>os.Stat\<close> does not find is reported and nothing else; for a file that it
  finds, \<open>os.Remove\<close> is the first call after the report.
\<close>

lemma delete_file_absent:
  "os_Stat os (world a) f = Inl err \<Longrightarrow>
   delete_file os f a = a\<lparr>trace := trace a @ [EvProgress (''Deleting: '' @ ShortenPath f 40)]\<rparr>"
  by (simp add: delete_file_def)

lemma delete_file_found:
  assumes found: "os_Stat os (world a) f = Inr info"
  shows "\<exists>evs. trace (delete_file os f a)
           = trace a @ [EvProgress (''Deleting: '' @ ShortenPath f 40), EvRemove f] @ evs"
proof -
  let ?m = "EvProgress (''Deleting: '' @ ShortenPath f 40)"
  obtain err w1 where rm: "os_Remove os (world a) f = (err, w1)"
    by (metis prod.exhaust)
  let ?a1 = "a\<lparr>trace := trace a @ [?m], world := w1, trace := trace a @ [?m] @ [EvRemove f]\<rparr>"
  show ?thesis
  proof (cases "err = None \<or> HasPrefix f (os_Getenv os (world a) ''HOME'')")
    case True
    with found rm have "trace (delete_file os f a) = trace a @ [?m, EvRemove f] @ []"
      by (auto simp: delete_file_def Let_def)
    then show ?thesis
      by blast
  next
    case False
    obtain e a2 where es: "EnsureSudo os ?a1 = (e, a2)"
      by (metis prod.exhaust)
    from EnsureSudo_events [OF es] have t2: "trace a2 = trace ?a1 @ new_events ?a1 a2"
      using extends_append by blast
    show ?thesis
    proof (cases e)
      case (Some x)
      with found rm False es have "delete_file os f a = a2"
        by (auto simp: delete_file_def Let_def)
      with t2 show ?thesis
        by simp
    next
      case None
      obtain res w3 where c: "exec_Command os (world a2) Run [''sudo'', ''rm'', ''-f'', f] = (res, w3)"
        by (metis prod.exhaust)
      with found rm False es None
      have "delete_file os f a
          = a2\<lparr>world := w3, trace := trace a2 @ [EvCommand [''sudo'', ''rm'', ''-f'', f]]\<rparr>"
        by (auto simp: delete_file_def Let_def)
      with t2 show ?thesis
        by simp
    qed
  qed
qed

lemma delete_file_trace: "\<exists>evs. trace (delete_file os f a) = trace a @ evs"
proof (cases "os_Stat os (world a) f")
  case (Inl err)
  then show ?thesis
    by (simp add: delete_file_absent)
next
  case (Inr info)
  from delete_file_found [OF this] show ?thesis
    by blast
qed

lemma delete_files_trace: "\<exists>evs. trace (delete_files os fs a) = trace a @ evs"
proof (induction fs arbitrary: a)
  case Nil
  then show ?case
    by (simp add: delete_files_def)
next
  case (Cons f fs)
  obtain e1 where e1: "trace (delete_file os f a) = trace a @ e1"
    using delete_file_trace by blast
  obtain e2 where "trace (delete_files os fs (delete_file os f a)) = trace (delete_file os f a) @ e2"
    using Cons.IH by blast
  with e1 show ?case
    by (simp add: delete_files_def)
qed

text \<open>
  In a run over a list of files, every file that \<open>os.Stat\<close> finds when its turn comes
  is given to \<open>os.Remove\<close>.
\<close>

lemma delete_files_found:
  assumes k: "k < length fs"
    and found: "os_Stat os (world (delete_files os (take k fs) s)) (fs ! k) = Inr info"
  shows "EvRemove (fs ! k) \<in> set (new_events s (delete_files os fs s))"
proof -
  let ?a = "delete_files os (take k fs) s"
  have "fs = take k fs @ fs ! k # drop (Suc k) fs"
    using k by (simp add: id_take_nth_drop)
  then have "delete_files os fs s
      = delete_files os (take k fs @ fs ! k # drop (Suc k) fs) s"
    by simp
  also have "\<dots> = delete_files os (drop (Suc k) fs) (delete_file os (fs ! k) ?a)"
    by (simp add: delete_files_def)
  finally have "delete_files os fs s
      = delete_files os (drop (Suc k) fs) (delete_file os (fs ! k) ?a)" .
  moreover obtain e0 where "trace ?a = trace s @ e0"
    using delete_files_trace by blast
  moreover obtain e1 where "trace (delete_file os (fs ! k) ?a)
      = trace ?a @ [EvProgress (''Deleting: '' @ ShortenPath (fs ! k) 40), EvRemove (fs ! k)] @ e1"
    using delete_file_found [OF found] by blast
  moreover obtain e2 where "trace (delete_files os (drop (Suc k) fs) (delete_file os (fs ! k) ?a))
      = trace (delete_file os (fs ! k) ?a) @ e2"
    using delete_files_trace by blast
  ultimately show ?thesis
    by (simp add: new_events_def)
qed

text \<open>
  A selected key below 0 makes \<open>groups[i]\<close> panic. The menu selects by cursor
  position, so its keys are not negative.
\<close>

lemma DeleteDuplicates_negative_key:
  "DeleteDuplicates os groups [(- 1, True)] s = Inl (IndexOutOfRange (- 1) (length groups))"
  by (simp add: DeleteDuplicates_def index_def)

text \<open>
  C9, as amended. For a selection with no negative selected key, \<open>DeleteDuplicates\<close>
  returns without a panic, and the state it leaves is that of \<open>delete_files\<close> on the
  member paths after the first one of every selected group: for each of them in turn a
  progress message, and for a path that \<open>os.Stat\<close> finds a call of \<open>os.Remove\<close>; when
  that failed on a path outside the home directory, \<open>EnsureSudo\<close> follows, and
  \<open>sudo rm -f\<close> if it succeeds; a removal that fails is passed over. So
  \<open>os.Remove\<close> is called on every one of these paths that
  \<open>os.Stat\<close> finds when its turn comes, and every path that the system is asked to
  remove is one of these paths. When the paths of the groups are pairwise distinct, the
  first path of a group is never among the paths to remove, and no member of a group that
  is not selected is.
\<close>

theorem DeleteDuplicates_keeps_first:
  assumes keys: "\<forall>(i, sel) \<in> set selected. sel \<longrightarrow> 0 \<le> i"
  shows "\<exists>deleted s'.
         DeleteDuplicates os groups selected s = Inr (deleted, s') \<and>
         s' = delete_files os (doomed groups selected) s \<and>
         (\<forall>k < length (doomed groups selected). \<forall>info.
            os_Stat os (world (delete_files os (take k (doomed groups selected)) s))
              (doomed groups selected ! k) = Inr info \<longrightarrow>
            EvRemove (doomed groups selected ! k) \<in> set (new_events s s')) \<and>
         extends s s' \<and>
         messages (new_events s s')
           = map (\<lambda>f. ''Deleting: '' @ ShortenPath f 40) (doomed groups selected) \<and>
         set (removals (new_events s s')) \<subseteq> set (doomed groups selected) \<and>
         (distinct (concat (map Files groups)) \<longrightarrow>
            (\<forall>j < length groups. Files (groups ! j) \<noteq> [] \<longrightarrow>
               hd (Files (groups ! j)) \<notin> set (removals (new_events s s'))) \<and>
            (\<forall>j < length groups. (int j, True) \<notin> set selected \<longrightarrow>
               set (Files (groups ! j)) \<inter> set (removals (new_events s s')) = {}))"
proof -
  obtain deleted s' where loop: "DeleteFiles_loop os (doomed groups selected) 0 s = (deleted, s')"
    by (metis prod.exhaust)
  have fold: "s' = delete_files os (doomed groups selected) s"
    using DeleteFiles_loop_fold [of os "doomed groups selected" 0 s] loop
    by (simp add: delete_files_def)
  have "filesToDelete groups selected [] = Inr (doomed groups selected)"
    using filesToDelete_doomed [OF keys, of groups "[]"] by simp
  with loop have res: "DeleteDuplicates os groups selected s = Inr (deleted, s')"
    by (simp add: DeleteDuplicates_def DeleteFiles_def)
  from DeleteFiles_loop_events [OF loop]
  have ev: "extends s s'"
    "set (removals (new_events s s')) \<subseteq> set (doomed groups selected)"
    "messages (new_events s s')
       = map (\<lambda>f. ''Deleting: '' @ ShortenPath f 40) (doomed groups selected)"
    by simp_all
  have first: "hd (Files (groups ! j)) \<notin> set (removals (new_events s s'))"
    if "distinct (concat (map Files groups))" "j < length groups"
      "Files (groups ! j) \<noteq> []" for j
    using first_not_doomed [OF that, of selected] ev(2) by blast
  have unsel: "set (Files (groups ! j)) \<inter> set (removals (new_events s s')) = {}"
    if "distinct (concat (map Files groups))" "j < length groups"
      "(int j, True) \<notin> set selected" for j
    using unselected_not_doomed [OF that] ev(2) by blast
  have found: "EvRemove (doomed groups selected ! k) \<in> set (new_events s s')"
    if "k < length (doomed groups selected)"
      "os_Stat os (world (delete_files os (take k (doomed groups selected)) s))
         (doomed groups selected ! k) = Inr info" for k info
    using delete_files_found [OF that] fold by simp
  from res fold found ev first unsel show ?thesis
    by blast
qed

text \<open>
  The test of the repository: of three files with the same content the first is kept.
\<close>

lemmas dup_simps =
  DeleteDuplicates_def DeleteFiles_def DeleteFiles_remove_def index_def ShortenPath_def
  mem_os0_def fresh_def mem_simps call_simps

definition dup_after :: "memfs state" where
  "dup_after = snd (projr (DeleteDuplicates mem_os0 dup_groups [(0, True)] (fresh dup_fs)))"

lemma dup_run:
  "DeleteDuplicates mem_os0 dup_groups [(0, True)] (fresh dup_fs) = Inr (34, dup_after)"
  by (simp add: dup_after_def dup_groups_def dup_fs_def dup_simps)

lemma dup_after_eval:
  "trace dup_after
     = [EvProgress ''Deleting: /home/u/file2.txt'', EvRemove ''/home/u/file2.txt'',
        EvProgress ''Deleting: /home/u/file3.txt'', EvRemove ''/home/u/file3.txt''] \<and>
   os_Stat mem_os0 (world dup_after) ''/home/u/file1.txt'' = Inr (file_info ''file1.txt'' 17) \<and>
   os_Stat mem_os0 (world dup_after) ''/home/u/file2.txt'' = Inl ErrNotExist \<and>
   os_Stat mem_os0 (world dup_after) ''/home/u/file3.txt'' = Inl ErrNotExist"
  by (simp add: dup_after_def dup_groups_def dup_fs_def dup_simps)

theorem DeleteDuplicates_keeps_first_witness:
  "DeleteDuplicates mem_os0 dup_groups [(0, True)] (fresh dup_fs) = Inr (34, dup_after) \<and>
   dup_after = delete_files mem_os0 [''/home/u/file2.txt'', ''/home/u/file3.txt''] (fresh dup_fs) \<and>
   trace dup_after
     = [EvProgress ''Deleting: /home/u/file2.txt'', EvRemove ''/home/u/file2.txt'',
        EvProgress ''Deleting: /home/u/file3.txt'', EvRemove ''/home/u/file3.txt''] \<and>
   hd (Files (dup_groups ! 0)) \<notin> set (removals (new_events (fresh dup_fs) dup_after)) \<and>
   os_Stat mem_os0 (world dup_after) ''/home/u/file1.txt'' = Inr (file_info ''file1.txt'' 17) \<and>
   os_Stat mem_os0 (world dup_after) ''/home/u/file2.txt'' = Inl ErrNotExist \<and>
   os_Stat mem_os0 (world dup_after) ''/home/u/file3.txt'' = Inl ErrNotExist"
proof -
  have keys: "\<forall>(i, sel) \<in> set [(0 :: int, True)]. sel \<longrightarrow> 0 \<le> i"
    by simp
  have dist: "distinct (concat (map Files dup_groups))"
    by (simp add: dup_groups_def)
  have doomed: "doomed dup_groups [(0, True)] = [''/home/u/file2.txt'', ''/home/u/file3.txt'']"
    by (simp add: doomed_def dup_groups_def)
  from DeleteDuplicates_keeps_first [OF keys, of mem_os0 dup_groups "fresh dup_fs"] dup_run dist
  have fold: "dup_after = delete_files mem_os0 (doomed dup_groups [(0, True)]) (fresh dup_fs)"
    and "\<forall>j < length dup_groups. Files (dup_groups ! j) \<noteq> [] \<longrightarrow>
      hd (Files (dup_groups ! j)) \<notin> set (removals (new_events (fresh dup_fs) dup_after))"
    by auto
  then have "hd (Files (dup_groups ! 0)) \<notin> set (removals (new_events (fresh dup_fs) dup_after))"
    by (simp add: dup_groups_def)
  with fold doomed dup_run dup_after_eval show ?thesis
    by simp
qed

text \<open>
  C9 as stated fails in three ways. A member after the first that the user may not remove
  is still there after the run: the failed \<open>os.Remove\<close> is passed over. A group that
  lists its first path twice loses it. A selected key below 0 makes \<open>groups[i]\<close> panic
  before anything is deleted, also when group 0 is selected with it.
\<close>

definition locked_after :: "memfs state" where
  "locked_after = snd (projr (DeleteDuplicates mem_os0 dup_groups [(0, True)] (fresh locked_fs)))"

definition repeated_after :: "memfs state" where
  "repeated_after
     = snd (projr (DeleteDuplicates mem_os0 repeated_groups [(0, True)] (fresh dup_fs)))"

theorem DeleteDuplicates_not_exact:
  "DeleteDuplicates mem_os0 dup_groups [(0, True)] (fresh locked_fs) = Inr (17, locked_after) \<and>
   trace locked_after
     = [EvProgress ''Deleting: /home/u/file2.txt'', EvRemove ''/home/u/file2.txt'',
        EvProgress ''Deleting: /home/u/file3.txt'', EvRemove ''/home/u/file3.txt''] \<and>
   os_Stat mem_os0 (world locked_after) ''/home/u/file2.txt'' = Inr (file_info ''file2.txt'' 17) \<and>
   DeleteDuplicates mem_os0 repeated_groups [(0, True)] (fresh dup_fs) = Inr (17, repeated_after) \<and>
   hd (Files (repeated_groups ! 0)) = ''/home/u/file1.txt'' \<and>
   trace repeated_after
     = [EvProgress ''Deleting: /home/u/file1.txt'', EvRemove ''/home/u/file1.txt''] \<and>
   os_Stat mem_os0 (world repeated_after) ''/home/u/file1.txt'' = Inl ErrNotExist \<and>
   DeleteDuplicates mem_os0 dup_groups [(- 1, True), (0, True)] (fresh dup_fs)
     = Inl (IndexOutOfRange (- 1) 1)"
  by (simp add: locked_after_def repeated_after_def locked_fs_def repeated_groups_def
      dup_groups_def dup_fs_def dup_simps)

text \<open>
  Outside the home directory, a file that \<open>os.Remove\<close> may not remove is removed by
  \<open>sudo rm -f\<close>, after \<open>sudo -v\<close> has authenticated.
\<close>

definition shared_after :: "memfs state" where
  "shared_after = snd (projr (DeleteDuplicates mem_os0 shared_groups [(0, True)] (fresh shared_fs)))"

lemma DeleteDuplicates_sudo_fallback:
  "DeleteDuplicates mem_os0 shared_groups [(0, True)] (fresh shared_fs) = Inr (17, shared_after) \<and>
   trace shared_after
     = [EvProgress ''Deleting: /srv/b.iso'', EvRemove ''/srv/b.iso'',
        EvCommand [''sudo'', ''-v''], EvCommand [''sudo'', ''rm'', ''-f'', ''/srv/b.iso'']] \<and>
   sudoMgr shared_after = \<lparr>HasSudo = True, LastAuth = 7, Timeout = 300000000000\<rparr> \<and>
   os_Stat mem_os0 (world shared_after) ''/srv/a.iso'' = Inr (file_info ''a.iso'' 17) \<and>
   os_Stat mem_os0 (world shared_after) ''/srv/b.iso'' = Inl ErrNotExist"
  by (simp add: shared_after_def shared_groups_def shared_fs_def dup_simps)

end
